theory Spec2Isabelle
  imports Main "HOL-Library.Word" "HOL-Library.AList"
begin

section \<open>Strings, bytes and the Node.js primitives used by the code\<close>

text \<open>
  A JavaScript string is a sequence of UTF-16 code units: \<open>String.prototype.slice\<close>,
  \<open>split\<close>, \<open>indexOf\<close> and regular expressions without the \<open>u\<close> flag count and
  cut code units. \<open>Buffer.byteLength(s, "utf-8")\<close> and \<open>Buffer.from(s, "utf-8")\<close>
  count and produce the bytes of the UTF-8 encoding, where a surrogate pair becomes one
  four-byte sequence and a lone surrogate becomes U+FFFD. \<open>Buffer.toString("utf-8")\<close>
  decodes, replacing every maximal ill-formed byte sequence by U+FFFD.
  Budgets are JavaScript numbers in the source; they are integers here.
\<close>

type_synonym jsstring = "16 word list"
type_synonym bytes = "8 word list"

definition js :: "string \<Rightarrow> jsstring" where
  "js s = map (\<lambda>c. of_nat (of_char c)) s"

definition nl :: "16 word" where
  "nl = 0x0A"

definition isHighSurrogate :: "16 word \<Rightarrow> bool" where
  "isHighSurrogate u = (0xD800 \<le> u \<and> u \<le> 0xDBFF)"

definition isLowSurrogate :: "16 word \<Rightarrow> bool" where
  "isLowSurrogate u = (0xDC00 \<le> u \<and> u \<le> 0xDFFF)"

definition utf8_of_codepoint :: "nat \<Rightarrow> bytes" where
  "utf8_of_codepoint cp =
     (if cp < 0x80 then [of_nat cp]
      else if cp < 0x800 then [of_nat (0xC0 + cp div 64), of_nat (0x80 + cp mod 64)]
      else if cp < 0x10000 then
        [of_nat (0xE0 + cp div 4096), of_nat (0x80 + (cp div 64) mod 64), of_nat (0x80 + cp mod 64)]
      else
        [of_nat (0xF0 + cp div 262144), of_nat (0x80 + (cp div 4096) mod 64),
         of_nat (0x80 + (cp div 64) mod 64), of_nat (0x80 + cp mod 64)])"

fun utf8_encode :: "jsstring \<Rightarrow> bytes" where
  "utf8_encode [] = []"
| "utf8_encode [u] =
     (if isHighSurrogate u \<or> isLowSurrogate u then utf8_of_codepoint 0xFFFD
      else utf8_of_codepoint (unat u))"
| "utf8_encode (u # v # us) =
     (if isHighSurrogate u \<and> isLowSurrogate v then
        utf8_of_codepoint (0x10000 + (unat u - 0xD800) * 1024 + (unat v - 0xDC00)) @ utf8_encode us
      else if isHighSurrogate u \<or> isLowSurrogate u then
        utf8_of_codepoint 0xFFFD @ utf8_encode (v # us)
      else utf8_of_codepoint (unat u) @ utf8_encode (v # us))"

definition byteLength :: "jsstring \<Rightarrow> nat" where
  "byteLength s = length (utf8_encode s)"

fun isCont :: "8 word \<Rightarrow> bool" where
  "isCont b = (0x80 \<le> b \<and> b \<le> 0xBF)"

definition units_of_codepoint :: "nat \<Rightarrow> jsstring" where
  "units_of_codepoint cp =
     (if cp < 0x10000 then [of_nat cp]
      else [of_nat (0xD800 + (cp - 0x10000) div 1024), of_nat (0xDC00 + (cp - 0x10000) mod 1024)])"

definition cont :: "8 word \<Rightarrow> nat" where
  "cont b = unat b mod 64"

fun utf8_decode :: "bytes \<Rightarrow> jsstring" where
  "utf8_decode [] = []"
| "utf8_decode (b # bs) =
     (if b < 0x80 then ucast b # utf8_decode bs
      else if 0xC2 \<le> b \<and> b \<le> 0xDF then
        (case bs of
           c # cs \<Rightarrow>
             if isCont c then of_nat ((unat b - 0xC0) * 64 + cont c) # utf8_decode cs
             else 0xFFFD # utf8_decode bs
         | [] \<Rightarrow> [0xFFFD])
      else if 0xE0 \<le> b \<and> b \<le> 0xEF then
        (case bs of
           c # cs \<Rightarrow>
             if (if b = 0xE0 then 0xA0 else 0x80) \<le> c \<and> c \<le> (if b = 0xED then 0x9F else 0xBF) then
               (case cs of
                  d # ds \<Rightarrow>
                    if isCont d then
                      of_nat ((unat b - 0xE0) * 4096 + cont c * 64 + cont d) # utf8_decode ds
                    else 0xFFFD # utf8_decode cs
                | [] \<Rightarrow> [0xFFFD])
             else 0xFFFD # utf8_decode bs
         | [] \<Rightarrow> [0xFFFD])
      else if 0xF0 \<le> b \<and> b \<le> 0xF4 then
        (case bs of
           c # cs \<Rightarrow>
             if (if b = 0xF0 then 0x90 else 0x80) \<le> c \<and> c \<le> (if b = 0xF4 then 0x8F else 0xBF) then
               (case cs of
                  d # ds \<Rightarrow>
                    if isCont d then
                      (case ds of
                         e # es \<Rightarrow>
                           if isCont e then
                             units_of_codepoint
                               ((unat b - 0xF0) * 262144 + cont c * 4096 + cont d * 64 + cont e)
                             @ utf8_decode es
                           else 0xFFFD # utf8_decode ds
                       | [] \<Rightarrow> [0xFFFD])
                    else 0xFFFD # utf8_decode cs
                | [] \<Rightarrow> [0xFFFD])
             else 0xFFFD # utf8_decode bs
         | [] \<Rightarrow> [0xFFFD])
      else 0xFFFD # utf8_decode bs)"

text \<open>
  \<open>slice(start, end)\<close> of strings, arrays and buffers: a negative index counts from
  the end, and both indices are clamped to the length. In particular \<open>slice(-0)\<close> is
  \<open>slice(0)\<close>, the whole sequence.
\<close>

definition js_slice :: "'a list \<Rightarrow> int \<Rightarrow> int \<Rightarrow> 'a list" where
  "js_slice xs start end =
     (let len = int (length xs);
          from = (if start < 0 then max (len + start) 0 else min start len);
          to = (if end < 0 then max (len + end) 0 else min end len)
      in take (nat (to - from)) (drop (nat from) xs))"

definition js_slice_from :: "'a list \<Rightarrow> int \<Rightarrow> 'a list" where
  "js_slice_from xs start = js_slice xs start (int (length xs))"

text \<open>
  \<open>s.split("\n")\<close>, \<open>lines.join(sep)\<close> and \<open>s.indexOf("\n")\<close>. A split has at least
  one piece (lemma \<open>split_nl_not_Nil\<close>), so the last case of \<open>split_nl\<close> is never taken.
\<close>

fun split_nl :: "jsstring \<Rightarrow> jsstring list" where
  "split_nl [] = [] # []"
| "split_nl (c # cs) =
     (if c = nl then [] # split_nl cs
      else (case split_nl cs of l # ls \<Rightarrow> (c # l) # ls | [] \<Rightarrow> [c] # []))"

fun join_with :: "jsstring \<Rightarrow> jsstring list \<Rightarrow> jsstring" where
  "join_with sep [] = []"
| "join_with sep [x] = x"
| "join_with sep (x # y # ys) = x @ sep @ join_with sep (y # ys)"

fun indexOf_nl :: "jsstring \<Rightarrow> int" where
  "indexOf_nl [] = -1"
| "indexOf_nl (c # cs) =
     (if c = nl then 0 else (let i = indexOf_nl cs in if i < 0 then -1 else i + 1))"


text \<open>
  Number formatting: a template literal prints an integer in decimal;
  \<open>(bytes / 1024).toFixed(1)\<close> rounds the exact quotient to one decimal place, a tie
  going up (the quotient of an integer by a power of two is exact in a double).
\<close>

fun decimal :: "nat \<Rightarrow> jsstring" where
  "decimal n = (if n < 10 then [of_nat (48 + n)] else decimal (n div 10) @ [of_nat (48 + n mod 10)])"

declare decimal.simps [simp del]

definition numberToString :: "int \<Rightarrow> jsstring" where
  "numberToString i = (if i < 0 then 0x2D # decimal (nat (- i)) else decimal (nat i))"

definition toFixed1 :: "int \<Rightarrow> int \<Rightarrow> jsstring" where
  "toFixed1 num den =
     (let n = (num * 10 * 2 + den) div (2 * den)
      in numberToString (n div 10) @ js ''.'' @ numberToString (n mod 10))"

section \<open>The output formatter (src/utils.ts)\<close>

definition formatBytes :: "int \<Rightarrow> jsstring" where
  "formatBytes bytes =
     (if bytes < 1024 then numberToString bytes @ js ''B''
      else if bytes < 1024 * 1024 then toFixed1 bytes 1024 @ js ''KB''
      else toFixed1 bytes (1024 * 1024) @ js ''MB'')"

record ContentBlock =
  type :: jsstring
  text' :: "jsstring option"

record McpToolResult =
  content :: "ContentBlock list option"
  isError :: "bool option"

record FormatOptions =
  maxBytes :: "int option"
  maxLines :: "int option"

record Details =
  truncated :: bool
  totalLines :: nat
  totalBytes :: nat
  outputLines :: nat
  outputBytes :: nat
  tempFile :: "jsstring option"

record FormattedOutput =
  text' :: jsstring
  details :: Details

text \<open>
  What the formatter takes from its environment: \<open>JSON.stringify(result, null, 2)\<close>,
  the clock \<open>Date.now()\<close> and \<open>join(tmpdir(), filename)\<close>. The file system is a map
  from paths to contents, and \<open>writeFileSync\<close> stores the content under the path.
\<close>

record platform =
  stringify :: "McpToolResult \<Rightarrow> jsstring"
  now :: int
  tmpJoin :: "jsstring \<Rightarrow> jsstring"

type_synonym files = "jsstring \<rightharpoonup> jsstring"

definition writeTempFile :: "platform \<Rightarrow> files \<Rightarrow> jsstring \<Rightarrow> jsstring \<times> files" where
  "writeTempFile P fs contents =
     (let timestamp = now P;
          filename = js ''pi-minimax-mcp-'' @ numberToString timestamp @ js ''.txt'';
          filepath = tmpJoin P filename
      in (filepath, fs(filepath \<mapsto> contents)))"

text \<open>
  Lines 35 to 40: the texts of the blocks of type \<open>text\<close> whose \<open>text\<close> is a string
  (the filter and the map of the source in one pass), and the raw text to format.
\<close>

definition textBlocks :: "McpToolResult \<Rightarrow> jsstring list" where
  "textBlocks result =
     (let contentBlocks = (case content result of Some bs \<Rightarrow> bs | None \<Rightarrow> [])
      in List.map_filter
           (\<lambda>b. if type b = js ''text'' then ContentBlock.text' b else None) contentBlocks)"

definition rawTextOf :: "platform \<Rightarrow> McpToolResult \<Rightarrow> jsstring" where
  "rawTextOf P result =
     (let joined = join_with (js ''\<newline>\<newline>'') (textBlocks result)
      in if joined \<noteq> [] then joined else stringify P result)"

text \<open>\<open>truncated.replace(/^[^\n]*\n/, "")\<close>: the text after the first newline, if there is one.\<close>

definition replaceFirstLine :: "jsstring \<Rightarrow> jsstring" where
  "replaceFirstLine s = (case dropWhile (\<lambda>c. c \<noteq> nl) s of [] \<Rightarrow> s | _ # rest \<Rightarrow> rest)"

text \<open>
  Lines 50 to 65: the value of \<open>outputText\<close> before the truncation notice is appended,
  in the branch where a limit is exceeded.
\<close>

definition truncatedText :: "jsstring \<Rightarrow> int \<Rightarrow> int \<Rightarrow> jsstring" where
  "truncatedText rawText maxB maxL =
     (let lines = split_nl rawText;
          nLines = length lines;
          nBytes = byteLength rawText;
          truncateByLines = (int nLines > maxL);
          truncateByBytes = (int nBytes > maxB);
          outputText = rawText;
          outputText =
            (if truncateByBytes \<and> int nBytes > maxB then
               (let buffer = utf8_encode rawText;
                    truncated = utf8_decode (js_slice_from buffer (- maxB))
                in replaceFirstLine truncated)
             else outputText);
          outputText =
            (if truncateByLines then join_with [nl] (js_slice_from lines (- maxL))
             else outputText)
      in outputText)"

definition truncationInfo :: "nat \<Rightarrow> nat \<Rightarrow> int \<Rightarrow> int \<Rightarrow> jsstring \<Rightarrow> jsstring" where
  "truncationInfo nLines nBytes maxB maxL path =
     js ''\<newline>\<newline>[Output truncated: '' @ numberToString (min (int nLines) maxL)
     @ js '' of '' @ numberToString (int nLines)
     @ js '' lines ('' @ formatBytes (min (int nBytes) maxB)
     @ js '' of '' @ formatBytes (int nBytes)
     @ js ''). Full output: '' @ path @ js '']''"

definition budgetBytes :: "FormatOptions \<Rightarrow> int" where
  "budgetBytes options = (case maxBytes options of Some b \<Rightarrow> b | None \<Rightarrow> 51200)"

definition budgetLines :: "FormatOptions \<Rightarrow> int" where
  "budgetLines options = (case maxLines options of Some l \<Rightarrow> l | None \<Rightarrow> 2000)"

definition formatText ::
  "platform \<Rightarrow> files \<Rightarrow> jsstring \<Rightarrow> FormatOptions \<Rightarrow> FormattedOutput \<times> files" where
  "formatText P fs rawText options =
     (let maxB = budgetBytes options;
          maxL = budgetLines options;
          lines = split_nl rawText;
          nLines = length lines;
          nBytes = byteLength rawText;
          truncateByLines = (int nLines > maxL);
          truncateByBytes = (int nBytes > maxB);
          (outputText, path, fs') =
            (if truncateByLines \<or> truncateByBytes then
               (case writeTempFile P fs rawText of
                  (path, fs') \<Rightarrow>
                    (truncatedText rawText maxB maxL
                     @ truncationInfo nLines nBytes maxB maxL path,
                     Some path, fs'))
             else (rawText, None, fs))
      in (\<lparr>text' = outputText,
           details = \<lparr>truncated = truncateByLines \<or> truncateByBytes,
                      totalLines = nLines,
                      totalBytes = nBytes,
                      outputLines = length (split_nl outputText),
                      outputBytes = byteLength outputText,
                      tempFile = path\<rparr>\<rparr>,
          fs'))"

definition formatToolOutput ::
  "platform \<Rightarrow> files \<Rightarrow> McpToolResult \<Rightarrow> FormatOptions \<Rightarrow> FormattedOutput \<times> files" where
  "formatToolOutput P fs result options = formatText P fs (rawTextOf P result) options"

record TruncateResult =
  content :: jsstring
  truncated :: bool
  outputLines :: nat
  outputBytes :: nat
  totalLines :: nat
  totalBytes :: nat
  firstLineExceedsLimit :: bool

text \<open>Lines 132 to 160 of \<open>truncateHead\<close>: the content and the two flags.\<close>

definition truncateHeadContent :: "jsstring \<Rightarrow> int \<Rightarrow> int \<Rightarrow> jsstring \<times> bool \<times> bool" where
  "truncateHeadContent txt maxB maxL =
     (let nBytes = byteLength txt;
          lines = split_nl txt;
          nLines = length lines;
          line0 = (case lines of l # _ \<Rightarrow> l | [] \<Rightarrow> [])
      in if line0 \<noteq> [] \<and> int (byteLength line0) > maxB then
           (js_slice line0 0 maxB @ js ''... [truncated]'', True, True)
         else if int nLines > maxL \<or> int nBytes > maxB then
           (let kept = (if int nLines > maxL
                        then join_with [nl] (js_slice_from lines (- maxL)) else txt);
                contentBytes = byteLength kept
            in if int contentBytes > maxB then
                 (let buffer = utf8_encode kept;
                      tail = utf8_decode (js_slice_from buffer (- maxB));
                      newlineIdx = indexOf_nl tail
                  in (if newlineIdx > 0 then js_slice_from tail (newlineIdx + 1) else tail,
                      True, False))
               else (kept, True, False))
         else (txt, False, False))"

definition truncateHead :: "jsstring \<Rightarrow> FormatOptions \<Rightarrow> TruncateResult" where
  "truncateHead txt options =
     (let r = truncateHeadContent txt (budgetBytes options) (budgetLines options)
      in \<lparr>content = fst r,
          truncated = fst (snd r),
          outputLines = length (split_nl (fst r)),
          outputBytes = byteLength (fst r),
          totalLines = length (split_nl txt),
          totalBytes = byteLength txt,
          firstLineExceedsLimit = snd (snd r)\<rparr>)"

text \<open>A concrete environment, for evaluating the formatter on examples.\<close>

definition examplePlatform :: platform where
  "examplePlatform =
     \<lparr>stringify = (\<lambda>_. js ''{}''), now = 0, tmpJoin = (\<lambda>f. js ''/tmp/'' @ f)\<rparr>"

definition textResult :: "jsstring \<Rightarrow> McpToolResult" where
  "textResult t =
     \<lparr>McpToolResult.content = Some [\<lparr>type = js ''text'', ContentBlock.text' = Some t\<rparr>],
      isError = None\<rparr>"

section \<open>The MCP client session (src/client.ts)\<close>

text \<open>
  The class \<open>MiniMaxMcpClient\<close> is a record of its six private fields, extended by
  the part of the JavaScript runtime its methods act on: the promises they create and
  who awaits them, the armed timers, the lines written to the child's standard input,
  the processes spawned and killed, and the console.

  Every top-level entry into the class (a call of a public method, a stream or process
  event, a timer) is one event. An event runs to completion, and the continuations of
  the promises it settles run right after it, before the next event, as microtasks do.
  An \<open>async\<close> method is split at each \<open>await\<close>: the part before it runs in the event
  that calls the method, the part after it when the awaited promise settles.

  Request ids are JavaScript numbers counted up from 0; they are natural numbers here,
  which is exact below \<open>2 ^ 53\<close>. Construction of the child's environment and the
  logging of its standard error do not touch the session and are left out.
\<close>

datatype json =
  JNull | JBool bool | JNum int | JStr jsstring | JArr "json list" | JObj "(jsstring \<times> json) list"

datatype jid = IdNum int | IdStr jsstring

record RpcError =
  code :: int
  message :: jsstring

record JsonRpcResponse =
  id' :: "jid option"
  result :: "json option"
  error :: "RpcError option"

datatype error = Error jsstring

datatype 'a settlement = Unsettled | Resolved 'a | Rejected error

datatype stdin_stream = Writable | Throws jsstring

record ChildProcess =
  handle :: nat
  pid :: "nat option"
  stdin :: "stdin_stream option"

datatype wire = Request nat jsstring json | Notification jsstring json

text \<open>
  A pending request holds the \<open>resolve\<close> and \<open>reject\<close> functions of the promise that
  \<open>sendRequest\<close> returned, and its timer. Promises and timers of requests are named by
  the number of the request they were created for.
\<close>

record PendingRequest =
  promise :: nat
  timer :: nat

datatype awaiter = Initialize nat | CallTool nat

datatype connected = Immediately | Sharing nat

text \<open>
  What the session takes from its host: the process that the k-th \<open>spawn\<close> returns,
  \<open>JSON.parse\<close> followed by the cast to a response (\<open>None\<close> when the line is not JSON
  or parses to \<open>null\<close>, so that reading its \<open>id\<close> throws inside the \<open>try\<close>), and the
  configured \<open>timeoutMs\<close>.
\<close>

record host =
  spawnProcess :: "nat \<Rightarrow> ChildProcess"
  jsonParse :: "jsstring \<Rightarrow> JsonRpcResponse option"
  timeoutMs :: "int option"

record client =
  process :: "ChildProcess option"
  requestId :: nat
  pendingRequests :: "(jid \<times> PendingRequest) list"
  buffer :: jsstring
  initialized :: bool
  initPromise :: "nat option"
  requestPromise :: "nat \<Rightarrow> JsonRpcResponse settlement"
  requestAwaiter :: "nat \<Rightarrow> awaiter option"
  connectPromise :: "nat \<Rightarrow> unit settlement"
  connectAwaiters :: "nat \<Rightarrow> (nat \<times> jsstring \<times> json) list"
  callPromise :: "nat \<Rightarrow> json settlement"
  calls :: nat
  spawned :: nat
  startupWaiting :: "nat set"
  timers :: "nat set"
  killed :: "nat list"
  stdinLog :: "(nat \<times> wire) list"
  console :: "jsstring list"

definition newClient :: client where
  "newClient =
     \<lparr>process = None, requestId = 0, pendingRequests = [], buffer = [],
      initialized = False, initPromise = None,
      requestPromise = (\<lambda>_. Unsettled), requestAwaiter = (\<lambda>_. None),
      connectPromise = (\<lambda>_. Unsettled), connectAwaiters = (\<lambda>_. []),
      callPromise = (\<lambda>_. Unsettled), calls = 0, spawned = 0,
      startupWaiting = {}, timers = {}, killed = [], stdinLog = [], console = []\<rparr>"

definition notConnected :: error where
  "notConnected = Error (js ''MCP process not connected'')"

definition timeoutError :: "host \<Rightarrow> error" where
  "timeoutError H =
     Error (js ''MCP request timeout after ''
            @ (case timeoutMs H of Some t \<Rightarrow> numberToString t | None \<Rightarrow> js ''undefined'')
            @ js ''ms'')"

text \<open>Lines 146 to 153 and 230 to 232.\<close>

definition cleanup :: "client \<Rightarrow> client" where
  "cleanup s =
     (let s1 = s\<lparr>initialized := False, initPromise := None\<rparr>
      in case process s1 of
           Some p \<Rightarrow> s1\<lparr>killed := killed s1 @ [handle p], process := None\<rparr>
         | None \<Rightarrow> s1)"

definition disconnect :: "client \<Rightarrow> client" where
  "disconnect s = cleanup s"

text \<open>
  \<open>resolve\<close> and \<open>reject\<close> settle a promise once; later calls do nothing. The result
  lists the promise if it was settled now: its awaiter is resumed after the handler.
\<close>

definition settleRequest ::
  "nat \<Rightarrow> JsonRpcResponse settlement \<Rightarrow> client \<Rightarrow> client \<times> nat list" where
  "settleRequest n outcome s =
     (if requestPromise s n = Unsettled
      then (s\<lparr>requestPromise := (requestPromise s)(n := outcome)\<rparr>, [n])
      else (s, []))"

text \<open>Lines 155 to 184. \<open>Inl\<close>: the method throws before it has taken an id.\<close>

definition sendRequest :: "host \<Rightarrow> jsstring \<Rightarrow> json \<Rightarrow> client \<Rightarrow> (error + nat) \<times> client" where
  "sendRequest H method params s =
     (case process s of
        None \<Rightarrow> (Inl notConnected, s)
      | Some p \<Rightarrow>
          (case stdin p of
             None \<Rightarrow> (Inl notConnected, s)
           | Some stream \<Rightarrow>
               (let n = requestId s + 1;
                    s1 = s\<lparr>requestId := n\<rparr>;
                    s2 = s1\<lparr>requestPromise := (requestPromise s1)(n := Unsettled),
                            requestAwaiter := (requestAwaiter s1)(n := None),
                            timers := insert n (timers s1)\<rparr>;
                    s3 = s2\<lparr>pendingRequests :=
                              AList.update (IdNum (int n)) \<lparr>promise = n, timer = n\<rparr>
                                (pendingRequests s2)\<rparr>
                in case stream of
                     Writable \<Rightarrow>
                       (Inr n, s3\<lparr>stdinLog := stdinLog s3 @ [(handle p, Request n method params)]\<rparr>)
                   | Throws msg \<Rightarrow>
                       (Inr n, s3\<lparr>pendingRequests := AList.delete (IdNum (int n)) (pendingRequests s3),
                                  timers := timers s3 - {n},
                                  requestPromise := (requestPromise s3)(n := Rejected (Error msg))\<rparr>))))"

text \<open>Lines 186 to 198.\<close>

definition sendNotification :: "jsstring \<Rightarrow> json \<Rightarrow> client \<Rightarrow> error + client" where
  "sendNotification method params s =
     (case process s of
        None \<Rightarrow> Inl notConnected
      | Some p \<Rightarrow>
          (case stdin p of
             None \<Rightarrow> Inl notConnected
           | Some Writable \<Rightarrow> Inr (s\<lparr>stdinLog := stdinLog s @ [(handle p, Notification method params)]\<rparr>)
           | Some (Throws msg) \<Rightarrow> Inl (Error msg)))"

text \<open>
  Lines 200 to 213. \<open>callTool\<close> awaits \<open>connect()\<close>, then sends the request and awaits
  its response, then turns the response into its own outcome. A continuation is only
  ever run with a settled promise; its case for an unsettled one leaves the state alone.
\<close>

definition emptyContent :: json where
  "emptyContent = JObj [(js ''content'', JArr [])]"

definition toolResultOf :: "JsonRpcResponse settlement \<Rightarrow> json settlement" where
  "toolResultOf outcome =
     (case outcome of
        Unsettled \<Rightarrow> Unsettled
      | Rejected e \<Rightarrow> Rejected e
      | Resolved response \<Rightarrow>
          (case error response of
             Some e \<Rightarrow> Rejected (Error (js ''Tool call failed: '' @ message e))
           | None \<Rightarrow>
               Resolved (case result response of
                           None \<Rightarrow> emptyContent
                         | Some JNull \<Rightarrow> emptyContent
                         | Some r \<Rightarrow> r)))"

definition callTool_finish :: "nat \<Rightarrow> JsonRpcResponse settlement \<Rightarrow> client \<Rightarrow> client" where
  "callTool_finish c outcome s = s\<lparr>callPromise := (callPromise s)(c := toolResultOf outcome)\<rparr>"

definition toolCallParams :: "jsstring \<Rightarrow> json \<Rightarrow> json" where
  "toolCallParams name args = JObj [(js ''name'', JStr name), (js ''arguments'', args)]"

definition callTool_request ::
  "host \<Rightarrow> unit settlement \<Rightarrow> nat \<times> jsstring \<times> json \<Rightarrow> client \<Rightarrow> client" where
  "callTool_request H ready call s =
     (case call of (c, name, args) \<Rightarrow>
        (case ready of
           Unsettled \<Rightarrow> s
         | Rejected e \<Rightarrow> s\<lparr>callPromise := (callPromise s)(c := Rejected e)\<rparr>
         | Resolved _ \<Rightarrow>
             (case sendRequest H (js ''tools/call'') (toolCallParams name args) s of
                (Inl e, s1) \<Rightarrow> s1\<lparr>callPromise := (callPromise s1)(c := Rejected e)\<rparr>
              | (Inr n, s1) \<Rightarrow>
                  (case requestPromise s1 n of
                     Unsettled \<Rightarrow> s1\<lparr>requestAwaiter := (requestAwaiter s1)(n := Some (CallTool c))\<rparr>
                   | outcome \<Rightarrow> callTool_finish c outcome s1))))"

text \<open>The promise of the k-th \<open>doConnect\<close> settles, and the calls awaiting it go on.\<close>

definition settleConnect :: "host \<Rightarrow> nat \<Rightarrow> unit settlement \<Rightarrow> client \<Rightarrow> client" where
  "settleConnect H k outcome s =
     (if connectPromise s k \<noteq> Unsettled then s
      else fold (callTool_request H outcome) (connectAwaiters s k)
             (s\<lparr>connectPromise := (connectPromise s)(k := outcome),
                connectAwaiters := (connectAwaiters s)(k := [])\<rparr>))"

text \<open>Lines 86 to 107: \<open>initialize\<close> after its request has settled, and the end of \<open>doConnect\<close>.\<close>

definition initialize_finish ::
  "host \<Rightarrow> nat \<Rightarrow> JsonRpcResponse settlement \<Rightarrow> client \<Rightarrow> client" where
  "initialize_finish H k outcome s =
     (case outcome of
        Unsettled \<Rightarrow> s
      | Rejected e \<Rightarrow> settleConnect H k (Rejected e) s
      | Resolved response \<Rightarrow>
          (case error response of
             Some e \<Rightarrow>
               settleConnect H k (Rejected (Error (js ''MCP initialize failed: '' @ message e))) s
           | None \<Rightarrow>
               (case sendNotification (js ''notifications/initialized'') (JObj []) s of
                  Inl e \<Rightarrow> settleConnect H k (Rejected e) s
                | Inr s1 \<Rightarrow> settleConnect H k (Resolved ()) (s1\<lparr>initialized := True\<rparr>))))"

definition initializeParams :: json where
  "initializeParams =
     JObj [(js ''protocolVersion'', JStr (js ''2024-11-05'')),
           (js ''capabilities'', JObj []),
           (js ''clientInfo'',
            JObj [(js ''name'', JStr (js ''pi-minimax-mcp'')), (js ''version'', JStr (js ''1.0.0''))])]"

definition doConnect_initialize :: "host \<Rightarrow> nat \<Rightarrow> client \<Rightarrow> client" where
  "doConnect_initialize H k s =
     (case sendRequest H (js ''initialize'') initializeParams s of
        (Inl e, s1) \<Rightarrow> settleConnect H k (Rejected e) s1
      | (Inr n, s1) \<Rightarrow>
          (case requestPromise s1 n of
             Unsettled \<Rightarrow> s1\<lparr>requestAwaiter := (requestAwaiter s1)(n := Some (Initialize k))\<rparr>
           | outcome \<Rightarrow> initialize_finish H k outcome s1))"

text \<open>The awaiter of a settled request promise goes on.\<close>

definition resumeAwaiter :: "host \<Rightarrow> nat \<Rightarrow> client \<Rightarrow> client" where
  "resumeAwaiter H n s =
     (case requestAwaiter s n of
        None \<Rightarrow> s
      | Some (Initialize k) \<Rightarrow>
          initialize_finish H k (requestPromise s n) (s\<lparr>requestAwaiter := (requestAwaiter s)(n := None)\<rparr>)
      | Some (CallTool c) \<Rightarrow>
          callTool_finish c (requestPromise s n) (s\<lparr>requestAwaiter := (requestAwaiter s)(n := None)\<rparr>))"

text \<open>Lines 129 to 136.\<close>

definition handleMessage :: "JsonRpcResponse \<Rightarrow> client \<Rightarrow> client \<times> nat list" where
  "handleMessage msg s =
     (case id' msg of
        None \<Rightarrow> (s, [])
      | Some i \<Rightarrow>
          (case map_of (pendingRequests s) i of
             None \<Rightarrow> (s, [])
           | Some request \<Rightarrow>
               (let s1 = s\<lparr>pendingRequests := AList.delete i (pendingRequests s)\<rparr>;
                    s2 = s1\<lparr>timers := timers s1 - {timer request}\<rparr>
                in settleRequest (promise request) (Resolved msg) s2)))"

text \<open>\<open>String.prototype.trim\<close> removes white space and line terminators at both ends.\<close>

definition isWhiteSpace :: "16 word \<Rightarrow> bool" where
  "isWhiteSpace u =
     (u \<in> {0x09, 0x0A, 0x0B, 0x0C, 0x0D, 0x20, 0xA0, 0x1680, 0x2028, 0x2029, 0x202F, 0x205F,
            0x3000, 0xFEFF}
      \<or> (0x2000 \<le> u \<and> u \<le> 0x200A))"

definition trim :: "jsstring \<Rightarrow> jsstring" where
  "trim s = rev (dropWhile isWhiteSpace (rev (dropWhile isWhiteSpace s)))"

text \<open>
  Lines 109 to 127: the loop of \<open>handleData\<close> over the complete lines of the buffer.
  It returns the rest of the buffer, the session, and the promises settled on the way.
\<close>

function drainLines ::
  "host \<Rightarrow> jsstring \<Rightarrow> client \<Rightarrow> nat list \<Rightarrow> jsstring \<times> client \<times> nat list" where
  "drainLines H buf s settled =
     (if nl \<in> set buf then
        (let line = trim (takeWhile (\<lambda>c. c \<noteq> nl) buf);
             rest = tl (dropWhile (\<lambda>c. c \<noteq> nl) buf)
         in if line = [] then drainLines H rest s settled
            else (case jsonParse H line of
                    Some msg \<Rightarrow>
                      drainLines H rest (fst (handleMessage msg s)) (settled @ snd (handleMessage msg s))
                  | None \<Rightarrow>
                      drainLines H rest (s\<lparr>console := console s @ [js ''[pi-minimax-mcp] '' @ line]\<rparr>)
                        settled))
      else (buf, s, settled))"
  by pat_completeness auto
termination
proof (relation "measure (\<lambda>(H, buf, s, settled). length buf)")
  show "wf (measure (\<lambda>(H, buf, s, settled). length buf))"
    by simp
next
  fix H :: host and buf :: jsstring and s :: client and settled :: "nat list"
    and line rest :: jsstring
  assume "nl \<in> set buf" and "rest = tl (dropWhile (\<lambda>c. c \<noteq> nl) buf)"
  then have "length rest < length buf"
    by (induction buf arbitrary: rest) (auto split: if_splits)
  then show "((H, rest, s, settled), H, buf, s, settled)
             \<in> measure (\<lambda>(H, buf, s, settled). length buf)"
    by simp
  fix msg :: JsonRpcResponse
  from \<open>length rest < length buf\<close>
  show "((H, rest, fst (handleMessage msg s), settled @ snd (handleMessage msg s)), H, buf, s, settled)
        \<in> measure (\<lambda>(H, buf, s, settled). length buf)"
    by simp
  from \<open>length rest < length buf\<close>
  show "((H, rest, s\<lparr>console := console s @ [js ''[pi-minimax-mcp] '' @ line]\<rparr>, settled),
         H, buf, s, settled)
        \<in> measure (\<lambda>(H, buf, s, settled). length buf)"
    by simp
qed

declare drainLines.simps [simp del]

definition handleData :: "host \<Rightarrow> bytes \<Rightarrow> client \<Rightarrow> client" where
  "handleData H chunk s =
     (case drainLines H (buffer s @ utf8_decode chunk) s [] of
        (buf, s1, settled) \<Rightarrow> fold (resumeAwaiter H) settled (s1\<lparr>buffer := buf\<rparr>))"

text \<open>Lines 138 to 144: every pending request is rejected, in the order of the map.\<close>

fun rejectAll :: "error \<Rightarrow> PendingRequest list \<Rightarrow> client \<Rightarrow> nat list \<Rightarrow> client \<times> nat list" where
  "rejectAll err [] s settled = (s, settled)"
| "rejectAll err (request # requests) s settled =
     rejectAll err requests (fst (settleRequest (promise request) (Rejected err) s))
       (settled @ snd (settleRequest (promise request) (Rejected err) s))"

definition handleProcessError :: "host \<Rightarrow> error \<Rightarrow> client \<Rightarrow> client" where
  "handleProcessError H err s =
     (case rejectAll err (map snd (pendingRequests s)) s [] of
        (s1, settled) \<Rightarrow>
          fold (resumeAwaiter H) settled (cleanup (s1\<lparr>pendingRequests := []\<rparr>)))"

text \<open>Lines 67 to 72: the handler of the child's \<open>exit\<close> event.\<close>

definition handleExit :: "int option \<Rightarrow> client \<Rightarrow> client" where
  "handleExit exitCode s =
     cleanup
       (case exitCode of
          None \<Rightarrow> s
        | Some c \<Rightarrow>
            if c \<noteq> 0
            then s\<lparr>console := console s
                      @ [js ''[pi-minimax-mcp] Process exited with code '' @ numberToString c]\<rparr>
            else s)"

text \<open>Lines 169 to 172: the timer of request \<open>n\<close> fires, unless it was cleared.\<close>

definition requestTimeout :: "host \<Rightarrow> nat \<Rightarrow> client \<Rightarrow> client" where
  "requestTimeout H n s =
     (if n \<in> timers s then
        (let s1 = s\<lparr>timers := timers s - {n}\<rparr>;
             s2 = s1\<lparr>pendingRequests := AList.delete (IdNum (int n)) (pendingRequests s1)\<rparr>
         in case settleRequest n (Rejected (timeoutError H)) s2 of
              (s3, settled) \<Rightarrow> fold (resumeAwaiter H) settled s3)
      else s)"

text \<open>
  Lines 36 to 84: \<open>connect\<close>, and \<open>doConnect\<close> up to its first \<open>await\<close>. The startup
  promise of attempt \<open>k\<close> is resolved by a tick of its interval that finds a process
  with a pid, and rejected by its ten-second timer.
\<close>

definition doConnect :: "host \<Rightarrow> client \<Rightarrow> nat \<times> client" where
  "doConnect H s =
     (let k = spawned s + 1
      in (k, s\<lparr>process := Some (spawnProcess H k),
                spawned := k,
                connectPromise := (connectPromise s)(k := Unsettled),
                connectAwaiters := (connectAwaiters s)(k := []),
                startupWaiting := insert k (startupWaiting s)\<rparr>))"

definition connect :: "host \<Rightarrow> client \<Rightarrow> connected \<times> client" where
  "connect H s =
     (if initialized s then (Immediately, s)
      else (case initPromise s of
              Some k \<Rightarrow> (Sharing k, s)
            | None \<Rightarrow>
                (case doConnect H s of (k, s1) \<Rightarrow> (Sharing k, s1\<lparr>initPromise := Some k\<rparr>))))"

definition hasPid :: "client \<Rightarrow> bool" where
  "hasPid s =
     (case process s of
        None \<Rightarrow> False
      | Some p \<Rightarrow> (case pid p of None \<Rightarrow> False | Some n \<Rightarrow> n \<noteq> 0))"

definition startupTick :: "host \<Rightarrow> nat \<Rightarrow> client \<Rightarrow> client" where
  "startupTick H k s =
     (if k \<in> startupWaiting s \<and> hasPid s
      then doConnect_initialize H k (s\<lparr>startupWaiting := startupWaiting s - {k}\<rparr>)
      else s)"

definition startupTimeout :: "host \<Rightarrow> nat \<Rightarrow> client \<Rightarrow> client" where
  "startupTimeout H k s =
     (if k \<in> startupWaiting s
      then settleConnect H k (Rejected (Error (js ''MCP process startup timeout'')))
             (s\<lparr>startupWaiting := startupWaiting s - {k}\<rparr>)
      else s)"

text \<open>Lines 200 to 201: \<open>callTool\<close> up to the end of \<open>await this.connect()\<close>.\<close>

definition callTool :: "host \<Rightarrow> jsstring \<Rightarrow> json \<Rightarrow> client \<Rightarrow> nat \<times> client" where
  "callTool H name args s =
     (let c = calls s + 1;
          s0 = s\<lparr>calls := c, callPromise := (callPromise s)(c := Unsettled)\<rparr>
      in case connect H s0 of
           (Immediately, s1) \<Rightarrow> (c, callTool_request H (Resolved ()) (c, name, args) s1)
         | (Sharing k, s1) \<Rightarrow>
             (case connectPromise s1 k of
                Unsettled \<Rightarrow>
                  (c, s1\<lparr>connectAwaiters :=
                          (connectAwaiters s1)(k := connectAwaiters s1 k @ [(c, name, args)])\<rparr>)
              | outcome \<Rightarrow> (c, callTool_request H outcome (c, name, args) s1)))"

text \<open>Lines 215 to 221.\<close>

record WebSearchParams =
  query :: jsstring
  numResults :: "int option"
  recencyDays :: "int option"

definition webSearch :: "host \<Rightarrow> WebSearchParams \<Rightarrow> client \<Rightarrow> nat \<times> client" where
  "webSearch H params s =
     callTool H (js ''web_search'')
       (JObj ([(js ''query'', JStr (query params))]
              @ (case numResults params of
                   Some n \<Rightarrow> if n \<noteq> 0 then [(js ''num_results'', JNum n)] else []
                 | None \<Rightarrow> [])
              @ (case recencyDays params of
                   Some n \<Rightarrow> if n \<noteq> 0 then [(js ''recency_days'', JNum n)] else []
                 | None \<Rightarrow> []))) s"

text \<open>The events of a session, and a session run from its creation.\<close>

datatype event =
  Connect
| CallToolEv jsstring json
| WebSearch WebSearchParams
| Disconnect
| StartupTick nat
| StartupTimeout nat
| Data bytes
| ProcessError error
| ProcessExit "int option"
| RequestTimeout nat

fun step :: "host \<Rightarrow> event \<Rightarrow> client \<Rightarrow> client" where
  "step H Connect s = snd (connect H s)"
| "step H (CallToolEv name args) s = snd (callTool H name args s)"
| "step H (WebSearch params) s = snd (webSearch H params s)"
| "step H Disconnect s = disconnect s"
| "step H (StartupTick k) s = startupTick H k s"
| "step H (StartupTimeout k) s = startupTimeout H k s"
| "step H (Data chunk) s = handleData H chunk s"
| "step H (ProcessError err) s = handleProcessError H err s"
| "step H (ProcessExit exitCode) s = handleExit exitCode s"
| "step H (RequestTimeout n) s = requestTimeout H n s"

definition run :: "host \<Rightarrow> event list \<Rightarrow> client \<Rightarrow> client" where
  "run H es s = fold (step H) es s"

text \<open>
  The arrival of one response: \<open>handleMessage\<close>, then the awaiter of the promise it
  resolved. This is what \<open>handleData\<close> does with a chunk that holds one line.
\<close>

definition receive :: "host \<Rightarrow> JsonRpcResponse \<Rightarrow> client \<Rightarrow> client" where
  "receive H msg s =
     (case handleMessage msg s of (s1, settled) \<Rightarrow> fold (resumeAwaiter H) settled s1)"

text \<open>The ids of the requests written to the child, in the order they were written.\<close>

fun requestIds :: "(nat \<times> wire) list \<Rightarrow> nat list" where
  "requestIds [] = []"
| "requestIds ((h, Request n method params) # log) = n # requestIds log"
| "requestIds ((h, Notification method params) # log) = requestIds log"

text \<open>
  The invariant of a session: the pending-request map has one record per key, every
  record sits under the id of an issued request whose promise is still unsettled, and
  the ids written so far are positive, increasing and below the counter.
\<close>

definition pendingOk ::
  "nat \<Rightarrow> (nat \<Rightarrow> JsonRpcResponse settlement) \<Rightarrow> jid \<Rightarrow> PendingRequest \<Rightarrow> bool" where
  "pendingOk counter promises k r \<longleftrightarrow>
     (\<exists>n. k = IdNum (int n) \<and> r = \<lparr>promise = n, timer = n\<rparr> \<and> 0 < n \<and> n \<le> counter
          \<and> promises n = Unsettled)"

definition logOk :: "nat \<Rightarrow> (nat \<times> wire) list \<Rightarrow> bool" where
  "logOk counter log \<longleftrightarrow>
     sorted_wrt (<) (requestIds log) \<and> (\<forall>i \<in> set (requestIds log). 0 < i \<and> i \<le> counter)"

definition wellFormed :: "client \<Rightarrow> bool" where
  "wellFormed s \<longleftrightarrow>
     distinct (map fst (pendingRequests s))
     \<and> (\<forall>k r. map_of (pendingRequests s) k = Some r \<longrightarrow>
            pendingOk (requestId s) (requestPromise s) k r)
     \<and> logOk (requestId s) (stdinLog s)"

text \<open>
  What no later step undoes: the counter does not go down, a settled promise of an
  issued request keeps its outcome, and a removed record of an issued request stays
  removed.
\<close>

definition stable :: "client \<Rightarrow> client \<Rightarrow> bool" where
  "stable s s' \<longleftrightarrow>
     requestId s \<le> requestId s'
     \<and> (\<forall>n \<le> requestId s.
           (requestPromise s n \<noteq> Unsettled \<longrightarrow> requestPromise s' n = requestPromise s n)
           \<and> (map_of (pendingRequests s) (IdNum (int n)) = None \<longrightarrow>
                map_of (pendingRequests s') (IdNum (int n)) = None))"

text \<open>A step keeps what is settled and keeps the invariant.\<close>

definition preserved :: "client \<Rightarrow> client \<Rightarrow> bool" where
  "preserved s s' \<longleftrightarrow> stable s s' \<and> (wellFormed s \<longrightarrow> wellFormed s')"

text \<open>Two states with the same counter, pending map, request promises and written lines.\<close>

definition sameCore :: "client \<Rightarrow> client \<Rightarrow> bool" where
  "sameCore s s' \<longleftrightarrow>
     requestId s' = requestId s \<and> pendingRequests s' = pendingRequests s
     \<and> requestPromise s' = requestPromise s \<and> stdinLog s' = stdinLog s"

text \<open>A concrete host, for running the session on examples.\<close>

definition initOkLine :: jsstring where
  "initOkLine = js ''{'' @ [0x22] @ js ''id'' @ [0x22] @ js '':1,'' @ [0x22] @ js ''result'' @ [0x22] @ js '':{}}''"

definition initErrorLine :: jsstring where
  "initErrorLine =
     js ''{'' @ [0x22] @ js ''id'' @ [0x22] @ js '':1,'' @ [0x22] @ js ''error'' @ [0x22] @ js '':{''
     @ [0x22] @ js ''code'' @ [0x22] @ js '':-32600,'' @ [0x22] @ js ''message'' @ [0x22] @ js '':''
     @ [0x22] @ js ''bad'' @ [0x22] @ js ''}}''"

definition callOkLine :: jsstring where
  "callOkLine =
     js ''{'' @ [0x22] @ js ''id'' @ [0x22] @ js '':2,'' @ [0x22] @ js ''result'' @ [0x22] @ js '':{''
     @ [0x22] @ js ''content'' @ [0x22] @ js '':[]}}''"

definition exampleParse :: "jsstring \<Rightarrow> JsonRpcResponse option" where
  "exampleParse line =
     (if line = initOkLine
      then Some \<lparr>id' = Some (IdNum 1), result = Some (JObj []), error = None\<rparr>
      else if line = initErrorLine
      then Some \<lparr>id' = Some (IdNum 1), result = None,
                 error = Some \<lparr>code = - 32600, message = js ''bad''\<rparr>\<rparr>
      else if line = callOkLine
      then Some \<lparr>id' = Some (IdNum 2), result = Some (JObj [(js ''content'', JArr [])]),
                 error = None\<rparr>
      else None)"

definition exampleHost :: host where
  "exampleHost =
     \<lparr>spawnProcess = (\<lambda>k. \<lparr>handle = k, pid = Some (4000 + k), stdin = Some Writable\<rparr>),
      jsonParse = exampleParse,
      timeoutMs = Some 60000\<rparr>"

definition utf8_line :: "jsstring \<Rightarrow> bytes" where
  "utf8_line line = utf8_encode (line @ [nl])"

text \<open>
  Runs of a session against the example host, and the states they reach: after the
  initialize request is written, after the handshake, and with one tool call in flight.
\<close>

definition okResponse :: JsonRpcResponse where
  "okResponse = \<lparr>id' = Some (IdNum 1), result = Some (JObj []), error = None\<rparr>"

definition errorResponse :: JsonRpcResponse where
  "errorResponse =
     \<lparr>id' = Some (IdNum 1), result = None,
      error = Some \<lparr>code = - 32600, message = js ''bad''\<rparr>\<rparr>"

definition handshakeClient :: client where
  "handshakeClient =
     newClient\<lparr>process := Some \<lparr>handle = 1, pid = Some 4001, stdin = Some Writable\<rparr>,
       requestId := 1, pendingRequests := [(IdNum 1, \<lparr>promise = 1, timer = 1\<rparr>)],
       initPromise := Some 1, requestAwaiter := (\<lambda>_. None)(1 := Some (Initialize 1)),
       spawned := 1, timers := {1},
       stdinLog := [(1, Request 1 (js ''initialize'') initializeParams)]\<rparr>"

definition readyClient :: client where
  "readyClient =
     newClient\<lparr>process := Some \<lparr>handle = 1, pid = Some 4001, stdin = Some Writable\<rparr>,
       requestId := 1, initialized := True, initPromise := Some 1,
       requestPromise := (\<lambda>_. Unsettled)(1 := Resolved okResponse),
       connectPromise := (\<lambda>_. Unsettled)(1 := Resolved ()),
       spawned := 1,
       stdinLog := [(1, Request 1 (js ''initialize'') initializeParams),
                    (1, Notification (js ''notifications/initialized'') (JObj []))]\<rparr>"

definition searchArgs :: json where
  "searchArgs = JObj [(js ''query'', JStr (js ''x''))]"

definition callingClient :: client where
  "callingClient =
     readyClient\<lparr>requestId := 2, pendingRequests := [(IdNum 2, \<lparr>promise = 2, timer = 2\<rparr>)],
       requestPromise := (\<lambda>_. Unsettled)(1 := Resolved okResponse, 2 := Unsettled),
       requestAwaiter := (\<lambda>_. None)(2 := Some (CallTool 1)),
       callPromise := (\<lambda>_. Unsettled)(1 := Unsettled),
       calls := 1, timers := {2},
       stdinLog := stdinLog readyClient
         @ [(1, Request 2 (js ''tools/call'') (toolCallParams (js ''web_search'') searchArgs))]\<rparr>"

definition toolResponse :: JsonRpcResponse where
  "toolResponse =
     \<lparr>id' = Some (IdNum 2), result = Some (JObj [(js ''content'', JArr [])]), error = None\<rparr>"

definition toolErrorResponse :: JsonRpcResponse where
  "toolErrorResponse =
     \<lparr>id' = Some (IdNum 2), result = None,
      error = Some \<lparr>code = - 32000, message = js ''boom''\<rparr>\<rparr>"

definition handshakeScenario :: "event list" where
  "handshakeScenario = [Connect, StartupTick 1]"

definition readyScenario :: "event list" where
  "readyScenario = handshakeScenario @ [Data (utf8_line initOkLine)]"

definition callingScenario :: "event list" where
  "callingScenario =
     readyScenario @ [WebSearch \<lparr>query = js ''x'', numResults = None, recencyDays = None\<rparr>]"

definition exitScenario :: "event list" where
  "exitScenario = callingScenario @ [ProcessExit (Some 1)]"

definition handshakeErrorScenario :: "event list" where
  "handshakeErrorScenario = handshakeScenario @ [Data (utf8_line initErrorLine)]"

definition partialLineScenario :: "event list" where
  "partialLineScenario = handshakeScenario @ [Data (utf8_encode (js ''{partial''))]"

section \<open>Properties of the formatter\<close>

lemma split_nl_not_Nil: "split_nl s \<noteq> []"
  by (induction s) (auto split: list.splits)

lemma utf8_encode_plain:
  "\<not> isHighSurrogate u \<Longrightarrow> \<not> isLowSurrogate u \<Longrightarrow>
   utf8_encode (u # us) = utf8_of_codepoint (unat u) @ utf8_encode us"
  by (cases us) simp_all

lemma textBlocks_textResult: "textBlocks (textResult t) = [t]"
  by (simp add: textBlocks_def textResult_def List.map_filter_simps)

lemma rawTextOf_textResult: "t \<noteq> [] \<Longrightarrow> rawTextOf P (textResult t) = t"
  by (simp add: rawTextOf_def textBlocks_textResult)

text \<open>
  C9: a text within both budgets is returned unchanged, with \<open>truncated = false\<close>, no
  temporary file path, and the file system as it was.
\<close>

theorem formatToolOutput_within_budget:
  assumes "int (length (split_nl (rawTextOf P res))) \<le> budgetLines options"
    and "int (byteLength (rawTextOf P res)) \<le> budgetBytes options"
  shows "formatToolOutput P fs res options =
           (\<lparr>text' = rawTextOf P res,
             details = \<lparr>Details.truncated = False,
                        Details.totalLines = length (split_nl (rawTextOf P res)),
                        Details.totalBytes = byteLength (rawTextOf P res),
                        Details.outputLines = length (split_nl (rawTextOf P res)),
                        Details.outputBytes = byteLength (rawTextOf P res),
                        tempFile = None\<rparr>\<rparr>, fs)"
  using assms by (simp add: formatToolOutput_def formatText_def Let_def)

lemma example_three_lines:
  "rawTextOf examplePlatform (textResult (js ''abc\<newline>def\<newline>gh'')) = js ''abc\<newline>def\<newline>gh''"
  by (rule rawTextOf_textResult) (simp add: js_def)

lemma example_three_lines_count: "length (split_nl (js ''abc\<newline>def\<newline>gh'')) = 3"
  by (simp add: js_def nl_def)

lemma example_three_lines_bytes: "byteLength (js ''abc\<newline>def\<newline>gh'') = 10"
  by (simp add: js_def byteLength_def utf8_of_codepoint_def isHighSurrogate_def isLowSurrogate_def)

theorem formatToolOutput_within_budget_witness:
  "fst (formatToolOutput examplePlatform Map.empty (textResult (js ''abc\<newline>def\<newline>gh''))
         \<lparr>maxBytes = None, maxLines = None\<rparr>)
   = \<lparr>text' = js ''abc\<newline>def\<newline>gh'',
      details = \<lparr>Details.truncated = False, Details.totalLines = 3, Details.totalBytes = 10,
                 Details.outputLines = 3, Details.outputBytes = 10, tempFile = None\<rparr>\<rparr>
   \<and> snd (formatToolOutput examplePlatform Map.empty (textResult (js ''abc\<newline>def\<newline>gh''))
         \<lparr>maxBytes = None, maxLines = None\<rparr>) = Map.empty"
  using formatToolOutput_within_budget
    [of examplePlatform "textResult (js ''abc\<newline>def\<newline>gh'')"
        "\<lparr>maxBytes = None, maxLines = None\<rparr>" Map.empty]
  by (simp add: example_three_lines example_three_lines_count example_three_lines_bytes
      budgetLines_def budgetBytes_def)

text \<open>
  C10: when the texts of the textual blocks join to the empty string, the raw text is
  the structural dump of the whole result, and that dump is what is formatted. This
  happens also when a textual block exists, namely a single block with empty text.
\<close>

theorem formatToolOutput_empty_join_dump:
  assumes "join_with (js ''\<newline>\<newline>'') (textBlocks res) = []"
  shows "rawTextOf P res = stringify P res
       \<and> formatToolOutput P fs res options = formatText P fs (stringify P res) options"
  using assms by (simp add: formatToolOutput_def rawTextOf_def)

theorem formatToolOutput_empty_join_dump_witness:
  "textBlocks (textResult []) \<noteq> []
   \<and> rawTextOf examplePlatform (textResult []) = js ''{}''
   \<and> formatToolOutput examplePlatform Map.empty (textResult []) \<lparr>maxBytes = None, maxLines = None\<rparr>
     = formatText examplePlatform Map.empty (js ''{}'') \<lparr>maxBytes = None, maxLines = None\<rparr>"
  using formatToolOutput_empty_join_dump
    [of "textResult []" examplePlatform Map.empty "\<lparr>maxBytes = None, maxLines = None\<rparr>"]
  by (simp add: textBlocks_textResult examplePlatform_def)


lemma split_nl_no_newline: "nl \<notin> set s \<Longrightarrow> split_nl s = [s]"
  by (induction s) auto

lemma js_slice_whole: "int (length xs) \<le> n \<Longrightarrow> js_slice xs 0 n = xs"
  by (simp add: js_slice_def Let_def)

text \<open>
  The first branch of \<open>truncateHead\<close>: a non-empty first line whose UTF-8 length exceeds
  the byte budget is cut to its first \<open>maxBytes\<close> UTF-16 code units, the marker is
  appended, and both flags are set.
\<close>

lemma truncateHeadContent_first_line:
  assumes "split_nl txt = l # ls" and "l \<noteq> []" and "int (byteLength l) > maxB"
  shows "truncateHeadContent txt maxB maxL = (js_slice l 0 maxB @ js ''... [truncated]'', True, True)"
  using assms by (simp add: truncateHeadContent_def Let_def)

lemma utf8_encode_replicate_E9:
  "utf8_encode (replicate n 0xE9 @ xs) = concat (replicate n [0xC3, 0xA9]) @ utf8_encode xs"
proof (induction n)
  case 0
  show ?case by simp
next
  case (Suc n)
  have "utf8_encode ((0xE9 :: 16 word) # (replicate n 0xE9 @ xs))
        = utf8_of_codepoint (unat (0xE9 :: 16 word)) @ utf8_encode (replicate n 0xE9 @ xs)"
    by (rule utf8_encode_plain) (simp_all add: isHighSurrogate_def isLowSurrogate_def)
  with Suc show ?case by (simp add: utf8_of_codepoint_def)
qed

lemma byteLength_replicate_E9:
  "byteLength (replicate n 0xE9 @ xs) = 2 * n + byteLength xs"
  by (simp add: byteLength_def utf8_encode_replicate_E9 length_concat sum_list_replicate)

lemma byteLength_marker: "byteLength (js ''... [truncated]'') = 15"
  by (simp add: js_def byteLength_def utf8_of_codepoint_def isHighSurrogate_def isLowSurrogate_def)

lemma marker_no_newline: "nl \<notin> set (js ''... [truncated]'')"
  by (simp add: js_def nl_def)

text \<open>
  C8, at a line of 50,000 copies of U+00E9, which is 100,000 bytes of UTF-8: the line
  is over the default byte budget of 51200, the flags are set, but the cut keeps the
  first 51200 code units, which is the whole line, so the content is 100,015 bytes.
\<close>

theorem truncateHead_multibyte_line:
  "truncateHead (replicate 50000 0xE9) \<lparr>maxBytes = None, maxLines = None\<rparr> =
     \<lparr>content = replicate 50000 0xE9 @ js ''... [truncated]'',
      truncated = True, outputLines = 1, outputBytes = 100015,
      totalLines = 1, totalBytes = 100000, firstLineExceedsLimit = True\<rparr>"
proof -
  have nonl: "nl \<notin> set (replicate 50000 (0xE9 :: 16 word))"
    by (simp add: nl_def)
  have lines: "split_nl (replicate 50000 (0xE9 :: 16 word)) = [replicate 50000 0xE9]"
    using nonl by (rule split_nl_no_newline)
  have bytes: "byteLength (replicate 50000 (0xE9 :: 16 word)) = 100000"
    using byteLength_replicate_E9 [of 50000 "[]"] by (simp add: byteLength_def)
  have cut: "js_slice (replicate 50000 (0xE9 :: 16 word)) 0 51200 = replicate 50000 0xE9"
    by (rule js_slice_whole) simp
  have c: "truncateHeadContent (replicate 50000 0xE9) 51200 2000
           = (replicate 50000 0xE9 @ js ''... [truncated]'', True, True)"
    using truncateHeadContent_first_line [OF lines, of 51200 2000] by (simp add: bytes cut)
  have outl: "split_nl (replicate 50000 (0xE9 :: 16 word) @ js ''... [truncated]'')
              = [replicate 50000 0xE9 @ js ''... [truncated]'']"
    by (rule split_nl_no_newline) (use nonl marker_no_newline in simp)
  have outb: "byteLength (replicate 50000 (0xE9 :: 16 word) @ js ''... [truncated]'') = 100015"
    by (simp add: byteLength_replicate_E9 byteLength_marker)
  show ?thesis
    by (simp add: truncateHead_def budgetBytes_def budgetLines_def c lines bytes outl outb)
qed

lemma truncatedText_example:
  "truncatedText (js ''aaaa\<newline>bbbbbbbb\<newline>cccccccc'') 10 2 = js ''bbbbbbbb\<newline>cccccccc''"
  by code_simp

text \<open>
  C1, at a text of 3 lines and 22 bytes with \<open>maxLines = 2\<close> and \<open>maxBytes = 10\<close>:
  both limits are exceeded, and the content before the truncation notice is the last
  two lines of the original text, which is 17 bytes.
\<close>

theorem formatToolOutput_both_exceeded:
  "length (split_nl (js ''aaaa\<newline>bbbbbbbb\<newline>cccccccc'')) = 3
   \<and> byteLength (js ''aaaa\<newline>bbbbbbbb\<newline>cccccccc'') = 22
   \<and> text' (fst (formatToolOutput examplePlatform Map.empty
                (textResult (js ''aaaa\<newline>bbbbbbbb\<newline>cccccccc''))
                \<lparr>maxBytes = Some 10, maxLines = Some 2\<rparr>))
     = js ''bbbbbbbb\<newline>cccccccc''
       @ truncationInfo 3 22 10 2 (js ''/tmp/pi-minimax-mcp-0.txt'')
   \<and> length (split_nl (js ''bbbbbbbb\<newline>cccccccc'')) = 2
   \<and> byteLength (js ''bbbbbbbb\<newline>cccccccc'') = 17"
proof -
  have raw: "rawTextOf examplePlatform (textResult (js ''aaaa\<newline>bbbbbbbb\<newline>cccccccc''))
             = js ''aaaa\<newline>bbbbbbbb\<newline>cccccccc''"
    by (rule rawTextOf_textResult) (simp add: js_def)
  have l: "length (split_nl (js ''aaaa\<newline>bbbbbbbb\<newline>cccccccc'')) = 3"
    by code_simp
  have b: "byteLength (js ''aaaa\<newline>bbbbbbbb\<newline>cccccccc'') = 22"
    by code_simp
  have l2: "length (split_nl (js ''bbbbbbbb\<newline>cccccccc'')) = 2"
    by code_simp
  have b2: "byteLength (js ''bbbbbbbb\<newline>cccccccc'') = 17"
    by code_simp
  have path: "fst (writeTempFile examplePlatform Map.empty (js ''aaaa\<newline>bbbbbbbb\<newline>cccccccc''))
              = js ''/tmp/pi-minimax-mcp-0.txt''"
    by (simp add: writeTempFile_def examplePlatform_def numberToString_def decimal.simps js_def Let_def)
  show ?thesis
    by (simp add: formatToolOutput_def formatText_def raw l b l2 b2 path truncatedText_example
        budgetBytes_def budgetLines_def Let_def case_prod_unfold)
qed


section \<open>Invariants of the session\<close>

lemma stable_refl: "stable s s"
  by (simp add: stable_def)

lemma stable_trans: "stable a b \<Longrightarrow> stable b c \<Longrightarrow> stable a c"
  unfolding stable_def by (metis order_trans)

lemma cleanup_frame:
  "requestId (cleanup s) = requestId s" "pendingRequests (cleanup s) = pendingRequests s"
  "requestPromise (cleanup s) = requestPromise s" "stdinLog (cleanup s) = stdinLog s"
  "buffer (cleanup s) = buffer s" "callPromise (cleanup s) = callPromise s"
  "timers (cleanup s) = timers s" "requestAwaiter (cleanup s) = requestAwaiter s"
  by (simp_all add: cleanup_def Let_def split: option.splits)

lemma requestIds_append: "requestIds (xs @ ys) = requestIds xs @ requestIds ys"
  by (induction xs rule: requestIds.induct) simp_all

lemma pendingOk_mono:
  "pendingOk c ps k r \<Longrightarrow> c \<le> c' \<Longrightarrow> (\<forall>n \<le> c. ps n = Unsettled \<longrightarrow> ps' n = Unsettled)
   \<Longrightarrow> pendingOk c' ps' k r"
  unfolding pendingOk_def by (metis order_trans)

lemma logOk_mono: "logOk c log \<Longrightarrow> c \<le> c' \<Longrightarrow> logOk c' log"
  unfolding logOk_def by (meson order_trans)

lemma logOk_request:
  "logOk c log \<Longrightarrow> logOk (Suc c) (log @ [(h, Request (Suc c) m p)])"
  unfolding logOk_def by (auto simp: requestIds_append sorted_wrt_append) 

lemma logOk_notification:
  "logOk c log \<Longrightarrow> logOk c (log @ [(h, Notification m p)])"
  unfolding logOk_def by (auto simp: requestIds_append)

lemma wellFormed_fresh:
  assumes "wellFormed s" and "requestId s < n"
  shows "map_of (pendingRequests s) (IdNum (int n)) = None"
proof (rule ccontr)
  assume "map_of (pendingRequests s) (IdNum (int n)) \<noteq> None"
  then obtain r where "map_of (pendingRequests s) (IdNum (int n)) = Some r"
    by auto
  with assms(1) have "pendingOk (requestId s) (requestPromise s) (IdNum (int n)) r"
    unfolding wellFormed_def by blast
  with assms(2) show False
    by (auto simp: pendingOk_def)
qed

lemma sendRequest_stable: "stable s (snd (sendRequest H m p s))"
  by (auto simp: sendRequest_def stable_def Let_def update_conv' delete_conv'
      split: option.splits stdin_stream.splits)

lemma sendRequest_wellFormed:
  assumes wf: "wellFormed s"
  shows "wellFormed (snd (sendRequest H m p s))"
proof (cases "process s")
  case None
  with wf show ?thesis by (simp add: sendRequest_def)
next
  case (Some pr)
  show ?thesis
  proof (cases "stdin pr")
    case None
    with Some wf show ?thesis by (simp add: sendRequest_def)
  next
    case (Some stream)
    let ?n = "Suc (requestId s)"
    let ?K = "IdNum (int ?n)"
    from wf have d: "distinct (map fst (pendingRequests s))"
      and ok: "\<And>k r. map_of (pendingRequests s) k = Some r \<Longrightarrow>
                 pendingOk (requestId s) (requestPromise s) k r"
      and lg: "logOk (requestId s) (stdinLog s)"
      unfolding wellFormed_def by auto
    have old: "pendingOk ?n ((requestPromise s)(?n := x)) k r"
      if "map_of (pendingRequests s) k = Some r" for k r x
      using ok [OF that] by (rule pendingOk_mono) auto
    have new: "pendingOk ?n ((requestPromise s)(?n := Unsettled)) ?K \<lparr>promise = ?n, timer = ?n\<rparr>"
      by (simp add: pendingOk_def)
    show ?thesis
    proof (cases stream)
      case Writable
      with \<open>process s = Some pr\<close> \<open>stdin pr = Some stream\<close> d old new lg show ?thesis
        by (auto simp: sendRequest_def Let_def wellFormed_def update_conv' distinct_update
            logOk_request simp del: map_of_eq_Some_iff split: if_splits)
    next
      case (Throws msg)
      with \<open>process s = Some pr\<close> \<open>stdin pr = Some stream\<close> d old lg show ?thesis
        by (auto simp: sendRequest_def Let_def wellFormed_def update_conv' delete_conv'
            distinct_update distinct_delete delete_update_same logOk_mono
            simp del: map_of_eq_Some_iff split: if_splits)
    qed
  qed
qed


lemma preserved_refl: "preserved s s"
  by (simp add: preserved_def stable_refl)

lemma preserved_trans: "preserved a b \<Longrightarrow> preserved b c \<Longrightarrow> preserved a c"
  unfolding preserved_def using stable_trans by blast

lemma sameCore_preserved: "sameCore s s' \<Longrightarrow> preserved s s'"
  by (simp add: sameCore_def preserved_def stable_def wellFormed_def)

lemma preserved_sameCore: "preserved s s1 \<Longrightarrow> sameCore s1 s2 \<Longrightarrow> preserved s s2"
  using preserved_trans sameCore_preserved by blast

lemma sameCore_cleanup: "sameCore s (cleanup s)"
  by (simp add: sameCore_def cleanup_frame)

lemma sendRequest_preserved: "preserved s (snd (sendRequest H m p s))"
  by (simp add: preserved_def sendRequest_stable sendRequest_wellFormed)

lemma sendNotification_preserved:
  assumes "sendNotification m p s = Inr s1"
  shows "preserved s s1"
proof -
  from assms have "\<exists>h. s1 = s\<lparr>stdinLog := stdinLog s @ [(h, Notification m p)]\<rparr>"
    by (auto simp: sendNotification_def split: option.splits stdin_stream.splits)
  then obtain h where s1: "s1 = s\<lparr>stdinLog := stdinLog s @ [(h, Notification m p)]\<rparr>" ..
  show ?thesis
    unfolding s1 by (simp add: preserved_def stable_def wellFormed_def logOk_notification)
qed

lemma callTool_finish_sameCore: "sameCore s (callTool_finish c out s)"
  by (simp add: sameCore_def callTool_finish_def)

lemma callTool_request_preserved: "preserved s (callTool_request H ready call s)"
proof -
  obtain c name args where call: "call = (c, name, args)"
    by (cases call) auto
  show ?thesis
  proof (cases ready)
    case Unsettled
    with call show ?thesis by (simp add: callTool_request_def preserved_refl)
  next
    case (Rejected e)
    with call show ?thesis
      by (simp add: callTool_request_def sameCore_preserved sameCore_def)
  next
    case (Resolved u)
    obtain r s1 where sr: "sendRequest H (js ''tools/call'') (toolCallParams name args) s = (r, s1)"
      by (cases "sendRequest H (js ''tools/call'') (toolCallParams name args) s") auto
    then have p1: "preserved s s1"
      using sendRequest_preserved [of s H "js ''tools/call''" "toolCallParams name args"] by simp
    have "sameCore s1 (callTool_request H ready call s)"
      using call Resolved sr
      by (auto simp: callTool_request_def sameCore_def callTool_finish_def
          split: sum.splits settlement.splits)
    with p1 show ?thesis by (rule preserved_sameCore)
  qed
qed

lemma fold_preserved:
  assumes "\<And>x t. preserved t (f x t)"
  shows "preserved s (fold f xs s)"
proof (induction xs arbitrary: s)
  case Nil
  show ?case by (simp add: preserved_refl)
next
  case (Cons x xs)
  have "preserved s (f x s)" by (rule assms)
  moreover have "preserved (f x s) (fold f xs (f x s))" by (rule Cons.IH)
  ultimately show ?case by (simp add: preserved_trans)
qed

lemma settleConnect_preserved: "preserved s (settleConnect H k out s)"
proof (cases "connectPromise s k \<noteq> Unsettled")
  case True
  then show ?thesis by (simp add: settleConnect_def preserved_refl)
next
  case False
  let ?s1 = "s\<lparr>connectPromise := (connectPromise s)(k := out),
                 connectAwaiters := (connectAwaiters s)(k := [])\<rparr>"
  have "preserved s ?s1"
    by (simp add: sameCore_preserved sameCore_def)
  moreover have "preserved ?s1 (fold (callTool_request H out) (connectAwaiters s k) ?s1)"
    by (rule fold_preserved) (rule callTool_request_preserved)
  ultimately show ?thesis
    using False by (simp add: settleConnect_def preserved_trans)
qed

lemma initialize_finish_preserved: "preserved s (initialize_finish H k out s)"
proof (cases out)
  case Unsettled
  then show ?thesis by (simp add: initialize_finish_def preserved_refl)
next
  case (Rejected e)
  then show ?thesis by (simp add: initialize_finish_def settleConnect_preserved)
next
  case (Resolved response)
  show ?thesis
  proof (cases "error response")
    case (Some e)
    with Resolved show ?thesis by (simp add: initialize_finish_def settleConnect_preserved)
  next
    case None
    show ?thesis
    proof (cases "sendNotification (js ''notifications/initialized'') (JObj []) s")
      case (Inl e)
      with Resolved None show ?thesis by (simp add: initialize_finish_def settleConnect_preserved)
    next
      case (Inr s1)
      then have "preserved s s1" by (rule sendNotification_preserved)
      then have "preserved s (s1\<lparr>initialized := True\<rparr>)"
        by (rule preserved_sameCore) (simp add: sameCore_def)
      then have "preserved s (settleConnect H k (Resolved ()) (s1\<lparr>initialized := True\<rparr>))"
        using settleConnect_preserved preserved_trans by blast
      with Resolved None Inr show ?thesis by (simp add: initialize_finish_def)
    qed
  qed
qed

lemma doConnect_initialize_preserved: "preserved s (doConnect_initialize H k s)"
proof -
  obtain r s1 where sr: "sendRequest H (js ''initialize'') initializeParams s = (r, s1)"
    by (cases "sendRequest H (js ''initialize'') initializeParams s") auto
  then have p1: "preserved s s1"
    using sendRequest_preserved [of s H "js ''initialize''" initializeParams] by simp
  have "preserved s1 (doConnect_initialize H k s)"
  proof (cases r)
    case (Inl e)
    with sr show ?thesis by (simp add: doConnect_initialize_def settleConnect_preserved)
  next
    case (Inr n)
    show ?thesis
    proof (cases "requestPromise s1 n")
      case Unsettled
      with sr Inr show ?thesis
        by (simp add: doConnect_initialize_def sameCore_preserved sameCore_def)
    next
      case (Resolved x)
      with sr Inr show ?thesis
        by (simp add: doConnect_initialize_def initialize_finish_preserved)
    next
      case (Rejected e)
      with sr Inr show ?thesis
        by (simp add: doConnect_initialize_def initialize_finish_preserved)
    qed
  qed
  with p1 show ?thesis by (rule preserved_trans)
qed

lemma resumeAwaiter_preserved: "preserved s (resumeAwaiter H n s)"
proof (cases "requestAwaiter s n")
  case None
  then show ?thesis by (simp add: resumeAwaiter_def preserved_refl)
next
  case (Some a)
  let ?s1 = "s\<lparr>requestAwaiter := (requestAwaiter s)(n := None)\<rparr>"
  have p1: "preserved s ?s1"
    by (simp add: sameCore_preserved sameCore_def)
  show ?thesis
  proof (cases a)
    case (Initialize k)
    have "preserved ?s1 (initialize_finish H k (requestPromise s n) ?s1)"
      by (rule initialize_finish_preserved)
    with p1 Some Initialize show ?thesis
      by (simp add: resumeAwaiter_def preserved_trans)
  next
    case (CallTool c)
    have "preserved ?s1 (callTool_finish c (requestPromise s n) ?s1)"
      by (rule sameCore_preserved) (rule callTool_finish_sameCore)
    with p1 Some CallTool show ?thesis
      by (simp add: resumeAwaiter_def preserved_trans)
  qed
qed

lemma resumeAll_preserved: "preserved s (fold (resumeAwaiter H) ns s)"
  by (rule fold_preserved) (rule resumeAwaiter_preserved)


lemma settleRequest_stable: "stable s (fst (settleRequest n out s))"
  by (simp add: settleRequest_def stable_def)

lemma settleRequest_frame:
  "requestId (fst (settleRequest n out s)) = requestId s"
  "pendingRequests (fst (settleRequest n out s)) = pendingRequests s"
  "stdinLog (fst (settleRequest n out s)) = stdinLog s"
  "timers (fst (settleRequest n out s)) = timers s"
  "requestAwaiter (fst (settleRequest n out s)) = requestAwaiter s"
  "callPromise (fst (settleRequest n out s)) = callPromise s"
  by (simp_all add: settleRequest_def)

lemma settleRequest_wellFormed:
  assumes "wellFormed s" and "map_of (pendingRequests s) (IdNum (int n)) = None"
  shows "wellFormed (fst (settleRequest n out s))"
proof -
  have "pendingOk (requestId s) ((requestPromise s)(n := out)) k r"
    if "map_of (pendingRequests s) k = Some r" for k r
  proof -
    from assms(1) that have ok: "pendingOk (requestId s) (requestPromise s) k r"
      unfolding wellFormed_def by blast
    with that assms(2) have "k \<noteq> IdNum (int n)" by auto
    with ok show ?thesis by (auto simp: pendingOk_def)
  qed
  with assms(1) show ?thesis
    by (simp add: settleRequest_def wellFormed_def del: map_of_eq_Some_iff)
qed

lemma wellFormed_delete:
  assumes "wellFormed s"
  shows "wellFormed (s\<lparr>pendingRequests := AList.delete k (pendingRequests s)\<rparr>)"
  using assms
  by (auto simp: wellFormed_def distinct_delete delete_conv' simp del: map_of_eq_Some_iff
      split: if_splits)

lemma stable_delete: "stable s (s\<lparr>pendingRequests := AList.delete k (pendingRequests s)\<rparr>)"
  by (simp add: stable_def delete_conv')

lemma preserved_delete: "preserved s (s\<lparr>pendingRequests := AList.delete k (pendingRequests s)\<rparr>)"
  by (simp add: preserved_def stable_delete wellFormed_delete)

lemma handleMessage_preserved: "preserved s (fst (handleMessage msg s))"
proof (cases "id' msg")
  case None
  then show ?thesis by (simp add: handleMessage_def preserved_refl)
next
  case (Some i)
  show ?thesis
  proof (cases "map_of (pendingRequests s) i")
    case None
    with Some show ?thesis by (simp add: handleMessage_def preserved_refl)
  next
    case (Some req)
    let ?s2 = "s\<lparr>pendingRequests := AList.delete i (pendingRequests s),
                   timers := timers s - {timer req}\<rparr>"
    have eq: "fst (handleMessage msg s) = fst (settleRequest (promise req) (Resolved msg) ?s2)"
      using \<open>id' msg = Some i\<close> Some by (simp add: handleMessage_def Let_def)
    have p2: "preserved s ?s2"
      by (rule preserved_sameCore [OF preserved_delete [of s i]]) (simp add: sameCore_def)
    have st: "stable ?s2 (fst (settleRequest (promise req) (Resolved msg) ?s2))"
      by (rule settleRequest_stable)
    have wf: "wellFormed (fst (settleRequest (promise req) (Resolved msg) ?s2))" if "wellFormed s"
    proof (rule settleRequest_wellFormed)
      from that p2 show "wellFormed ?s2" by (simp add: preserved_def)
      from that Some have "pendingOk (requestId s) (requestPromise s) i req"
        unfolding wellFormed_def by blast
      then have "i = IdNum (int (promise req))"
        by (auto simp: pendingOk_def)
      then show "map_of (pendingRequests ?s2) (IdNum (int (promise req))) = None"
        by (simp add: delete_conv')
    qed
    from p2 st have "stable s (fst (settleRequest (promise req) (Resolved msg) ?s2))"
      unfolding preserved_def using stable_trans by blast
    with wf eq show ?thesis by (simp add: preserved_def)
  qed
qed


lemma drainLines_preserved: "preserved s (fst (snd (drainLines H buf s acc)))"
proof (induction H buf s acc rule: drainLines.induct)
  case (1 H buf s settled)
  show ?case
  proof (cases "nl \<in> set buf")
    case False
    then show ?thesis by (subst drainLines.simps) (simp add: preserved_refl)
  next
    case True
    let ?line = "trim (takeWhile (\<lambda>c. c \<noteq> nl) buf)"
    let ?rest = "tl (dropWhile (\<lambda>c. c \<noteq> nl) buf)"
    show ?thesis
    proof (cases "?line = []")
      case empty: True
      from "1.IH"(1) [OF True refl refl empty] True empty show ?thesis
        by (subst drainLines.simps) (simp add: Let_def)
    next
      case nonempty: False
      show ?thesis
      proof (cases "jsonParse H ?line")
        case None
        let ?s1 = "s\<lparr>console := console s @ [js ''[pi-minimax-mcp] '' @ ?line]\<rparr>"
        have "preserved s ?s1"
          by (simp add: sameCore_preserved sameCore_def)
        moreover have "preserved ?s1 (fst (snd (drainLines H ?rest ?s1 settled)))"
          by (rule "1.IH"(2) [OF True refl refl nonempty None])
        ultimately have "preserved s (fst (snd (drainLines H ?rest ?s1 settled)))"
          by (rule preserved_trans)
        with True nonempty None show ?thesis
          by (subst drainLines.simps) (simp add: Let_def)
      next
        case (Some msg)
        let ?s1 = "fst (handleMessage msg s)"
        let ?acc = "settled @ snd (handleMessage msg s)"
        have "preserved s ?s1"
          by (rule handleMessage_preserved)
        moreover have "preserved ?s1 (fst (snd (drainLines H ?rest ?s1 ?acc)))"
          by (rule "1.IH"(3) [OF True refl refl nonempty Some])
        ultimately have "preserved s (fst (snd (drainLines H ?rest ?s1 ?acc)))"
          by (rule preserved_trans)
        with True nonempty Some show ?thesis
          by (subst drainLines.simps) (simp add: Let_def)
      qed
    qed
  qed
qed

lemma handleData_preserved: "preserved s (handleData H chunk s)"
proof -
  obtain buf s1 settled where d: "drainLines H (buffer s @ utf8_decode chunk) s [] = (buf, s1, settled)"
    by (cases "drainLines H (buffer s @ utf8_decode chunk) s []") auto
  have "preserved s s1"
    using drainLines_preserved [of s H "buffer s @ utf8_decode chunk" "[]"] d by simp
  then have "preserved s (s1\<lparr>buffer := buf\<rparr>)"
    by (rule preserved_sameCore) (simp add: sameCore_def)
  then have "preserved s (fold (resumeAwaiter H) settled (s1\<lparr>buffer := buf\<rparr>))"
    using resumeAll_preserved preserved_trans by blast
  with d show ?thesis by (simp add: handleData_def)
qed

lemma rejectAll_frame:
  "requestId (fst (rejectAll err rs s acc)) = requestId s
   \<and> stdinLog (fst (rejectAll err rs s acc)) = stdinLog s
   \<and> stable s (fst (rejectAll err rs s acc))"
proof (induction rs arbitrary: s acc)
  case Nil
  show ?case by (simp add: stable_refl)
next
  case (Cons r rs)
  let ?s1 = "fst (settleRequest (promise r) (Rejected err) s)"
  let ?acc = "acc @ snd (settleRequest (promise r) (Rejected err) s)"
  from Cons.IH [of ?s1 ?acc] settleRequest_stable [of s "promise r" "Rejected err"]
  show ?case
    by (auto simp: settleRequest_frame intro: stable_trans)
qed

lemma handleProcessError_preserved: "preserved s (handleProcessError H err s)"
proof -
  obtain s1 settled where r: "rejectAll err (map snd (pendingRequests s)) s [] = (s1, settled)"
    by (cases "rejectAll err (map snd (pendingRequests s)) s []") auto
  let ?s2 = "cleanup (s1\<lparr>pendingRequests := []\<rparr>)"
  from rejectAll_frame [of err "map snd (pendingRequests s)" s "[]"] r
  have f: "requestId s1 = requestId s" "stdinLog s1 = stdinLog s" "stable s s1"
    by simp_all
  have "stable s ?s2"
    using f(3) by (simp add: stable_def cleanup_frame)
  moreover have "wellFormed ?s2" if "wellFormed s"
    using that f by (simp add: wellFormed_def cleanup_frame)
  ultimately have "preserved s ?s2"
    by (simp add: preserved_def)
  then have "preserved s (fold (resumeAwaiter H) settled ?s2)"
    using resumeAll_preserved preserved_trans by blast
  with r show ?thesis by (simp add: handleProcessError_def)
qed

lemma handleExit_sameCore: "sameCore s (handleExit exitCode s)"
  by (simp add: handleExit_def sameCore_def cleanup_frame split: option.splits)

lemma requestTimeout_preserved: "preserved s (requestTimeout H n s)"
proof (cases "n \<in> timers s")
  case False
  then show ?thesis by (simp add: requestTimeout_def preserved_refl)
next
  case True
  let ?s2 = "s\<lparr>timers := timers s - {n},
                 pendingRequests := AList.delete (IdNum (int n)) (pendingRequests s)\<rparr>"
  let ?s3 = "fst (settleRequest n (Rejected (timeoutError H)) ?s2)"
  have p2: "preserved s ?s2"
    by (rule preserved_sameCore [OF preserved_delete [of s "IdNum (int n)"]]) (simp add: sameCore_def)
  have "stable ?s2 ?s3"
    by (rule settleRequest_stable)
  moreover have "wellFormed ?s3" if "wellFormed ?s2"
    using that by (rule settleRequest_wellFormed) (simp add: delete_conv')
  ultimately have "preserved ?s2 ?s3"
    by (simp add: preserved_def)
  with p2 have "preserved s ?s3"
    by (rule preserved_trans)
  then have "preserved s (fold (resumeAwaiter H) (snd (settleRequest n (Rejected (timeoutError H)) ?s2)) ?s3)"
    using resumeAll_preserved preserved_trans by blast
  with True show ?thesis
    by (simp add: requestTimeout_def Let_def case_prod_unfold)
qed

lemma connect_sameCore: "sameCore s (snd (connect H s))"
  by (simp add: connect_def doConnect_def sameCore_def Let_def split: option.splits)

lemma startupTick_preserved: "preserved s (startupTick H k s)"
proof (cases "k \<in> startupWaiting s \<and> hasPid s")
  case False
  then show ?thesis by (auto simp: startupTick_def preserved_refl)
next
  case True
  let ?s1 = "s\<lparr>startupWaiting := startupWaiting s - {k}\<rparr>"
  have "preserved s ?s1"
    by (simp add: sameCore_preserved sameCore_def)
  then have "preserved s (doConnect_initialize H k ?s1)"
    using doConnect_initialize_preserved preserved_trans by blast
  with True show ?thesis by (simp add: startupTick_def)
qed

lemma startupTimeout_preserved: "preserved s (startupTimeout H k s)"
proof (cases "k \<in> startupWaiting s")
  case False
  then show ?thesis by (simp add: startupTimeout_def preserved_refl)
next
  case True
  let ?s1 = "s\<lparr>startupWaiting := startupWaiting s - {k}\<rparr>"
  have "preserved s ?s1"
    by (simp add: sameCore_preserved sameCore_def)
  then have "preserved s (settleConnect H k (Rejected (Error (js ''MCP process startup timeout''))) ?s1)"
    using settleConnect_preserved preserved_trans by blast
  with True show ?thesis by (simp add: startupTimeout_def)
qed

lemma callTool_preserved: "preserved s (snd (callTool H name args s))"
proof -
  let ?c = "calls s + 1"
  let ?s0 = "s\<lparr>calls := ?c, callPromise := (callPromise s)(?c := Unsettled)\<rparr>"
  obtain r s1 where c: "connect H ?s0 = (r, s1)"
    by (cases "connect H ?s0") auto
  have "preserved s ?s0"
    by (simp add: sameCore_preserved sameCore_def)
  moreover have "preserved ?s0 s1"
    using connect_sameCore [of ?s0 H] c by (simp add: sameCore_preserved)
  ultimately have p1: "preserved s s1"
    by (rule preserved_trans)
  have "preserved s1 (snd (callTool H name args s))"
  proof (cases r)
    case Immediately
    with c show ?thesis
      by (simp add: callTool_def Let_def callTool_request_preserved)
  next
    case (Sharing k)
    show ?thesis
    proof (cases "connectPromise s1 k")
      case Unsettled
      with c Sharing show ?thesis
        by (simp add: callTool_def Let_def sameCore_preserved sameCore_def)
    next
      case (Resolved u)
      with c Sharing show ?thesis
        by (simp add: callTool_def Let_def callTool_request_preserved)
    next
      case (Rejected e)
      with c Sharing show ?thesis
        by (simp add: callTool_def Let_def callTool_request_preserved)
    qed
  qed
  with p1 show ?thesis by (rule preserved_trans)
qed

lemma step_preserved: "preserved s (step H e s)"
proof (cases e)
  case Connect
  then show ?thesis by (simp add: sameCore_preserved connect_sameCore)
next
  case (CallToolEv name args)
  then show ?thesis by (simp add: callTool_preserved)
next
  case (WebSearch params)
  then show ?thesis by (simp add: webSearch_def callTool_preserved)
next
  case Disconnect
  then show ?thesis by (simp add: disconnect_def sameCore_preserved sameCore_cleanup)
next
  case (StartupTick k)
  then show ?thesis by (simp add: startupTick_preserved)
next
  case (StartupTimeout k)
  then show ?thesis by (simp add: startupTimeout_preserved)
next
  case (Data chunk)
  then show ?thesis by (simp add: handleData_preserved)
next
  case (ProcessError err)
  then show ?thesis by (simp add: handleProcessError_preserved)
next
  case (ProcessExit exitCode)
  then show ?thesis by (simp add: sameCore_preserved handleExit_sameCore)
next
  case (RequestTimeout n)
  then show ?thesis by (simp add: requestTimeout_preserved)
qed

lemma run_preserved: "preserved s (run H es s)"
  unfolding run_def by (rule fold_preserved) (rule step_preserved)

lemma wellFormed_newClient: "wellFormed newClient"
  by (simp add: wellFormed_def newClient_def logOk_def)

lemma run_wellFormed: "wellFormed (run H es newClient)"
  using run_preserved [of newClient H es] wellFormed_newClient by (simp add: preserved_def)

section \<open>Runs of the session against the example host\<close>

lemmas session_defs =
  connect_def doConnect_def startupTick_def hasPid_def
  doConnect_initialize_def sendRequest_def handleMessage_def settleRequest_def
  resumeAwaiter_def initialize_finish_def sendNotification_def settleConnect_def
  callTool_def callTool_request_def callTool_finish_def webSearch_def handleExit_def cleanup_def
  disconnect_def requestTimeout_def receive_def

lemma run_snoc: "run H (es @ [e]) s = step H e (run H es s)"
  by (simp add: run_def)

lemma drain_no_newline: "nl \<notin> set buf \<Longrightarrow> drainLines H buf s acc = (buf, s, acc)"
  by (subst drainLines.simps) simp

lemma drain_one_line:
  assumes "nl \<notin> set line" and "trim line \<noteq> []" and "jsonParse H (trim line) = Some msg"
  shows "drainLines H (line @ [nl]) s [] = ([], fst (handleMessage msg s), snd (handleMessage msg s))"
proof -
  have t: "takeWhile (\<lambda>c. c \<noteq> nl) (line @ [nl]) = line"
    using assms(1) by (induction line) auto
  have d: "dropWhile (\<lambda>c. c \<noteq> nl) (line @ [nl]) = [nl]"
    using assms(1) by (induction line) auto
  show ?thesis
    using assms(2,3) by (subst drainLines.simps) (simp add: t d Let_def drain_no_newline)
qed

lemma handleMessage_buffer: "buffer (fst (handleMessage msg s)) = buffer s"
  by (simp add: handleMessage_def settleRequest_def Let_def split: option.splits)

text \<open>A chunk that holds exactly one line is the arrival of the message on that line.\<close>

lemma handleData_one_line:
  assumes "buffer s = []" and "utf8_decode chunk = line @ [nl]" and "nl \<notin> set line"
    and "trim line \<noteq> []" and "jsonParse H (trim line) = Some msg"
  shows "handleData H chunk s = receive H msg s"
proof -
  have "(fst (handleMessage msg s))\<lparr>buffer := []\<rparr> = fst (handleMessage msg s)"
    using handleMessage_buffer [of msg s] assms(1) by (metis client.surjective client.update_convs(4))
  then show ?thesis
    using assms by (simp add: handleData_def receive_def drain_one_line case_prod_unfold)
qed

lemma decode_ok_line: "utf8_decode (utf8_line initOkLine) = initOkLine @ [nl]"
  by code_simp

lemma decode_error_line: "utf8_decode (utf8_line initErrorLine) = initErrorLine @ [nl]"
  by code_simp

lemma decode_partial: "utf8_decode (utf8_encode (js ''{partial'')) = js ''{partial''"
  by code_simp

lemma initOkLine_chars: "nl \<notin> set initOkLine" "trim initOkLine = initOkLine" "initOkLine \<noteq> []"
  by (simp_all add: initOkLine_def js_def nl_def trim_def isWhiteSpace_def)

lemma initErrorLine_chars:
  "nl \<notin> set initErrorLine" "trim initErrorLine = initErrorLine" "initErrorLine \<noteq> []"
  "initErrorLine \<noteq> initOkLine"
  by (simp_all add: initErrorLine_def initOkLine_def js_def nl_def trim_def isWhiteSpace_def)

lemma run_handshake: "run exampleHost handshakeScenario newClient = handshakeClient"
  by (simp add: run_def handshakeScenario_def session_defs newClient_def exampleHost_def
      handshakeClient_def Let_def fun_upd_idem)

lemma data_ok_handshake:
  "handleData exampleHost (utf8_line initOkLine) handshakeClient = readyClient"
proof -
  have "handleData exampleHost (utf8_line initOkLine) handshakeClient
        = receive exampleHost okResponse handshakeClient"
    by (rule handleData_one_line [where line = initOkLine])
      (simp_all add: handshakeClient_def newClient_def decode_ok_line initOkLine_chars
        exampleHost_def exampleParse_def okResponse_def)
  also have "\<dots> = readyClient"
    by (simp add: handshakeClient_def session_defs readyClient_def newClient_def
        Let_def okResponse_def fun_upd_idem)
  finally show ?thesis .
qed

lemma run_ready: "run exampleHost readyScenario newClient = readyClient"
  by (simp only: readyScenario_def run_snoc run_handshake step.simps data_ok_handshake)

lemma webSearch_ready:
  "webSearch exampleHost \<lparr>query = js ''x'', numResults = None, recencyDays = None\<rparr> readyClient
   = (1, callingClient)"
  by (simp add: session_defs readyClient_def callingClient_def newClient_def Let_def
      searchArgs_def exampleHost_def numeral_2_eq_2)

lemma run_calling: "run exampleHost callingScenario newClient = callingClient"
  by (simp only: callingScenario_def run_snoc run_ready step.simps webSearch_ready snd_conv)


lemma handleExit_fields:
  "pendingRequests (handleExit exitCode s) = pendingRequests s"
  "requestPromise (handleExit exitCode s) = requestPromise s"
  "callPromise (handleExit exitCode s) = callPromise s"
  "requestAwaiter (handleExit exitCode s) = requestAwaiter s"
  "timers (handleExit exitCode s) = timers s"
  "requestId (handleExit exitCode s) = requestId s"
  "initialized (handleExit exitCode s) = False"
  "initPromise (handleExit exitCode s) = None"
  "process (handleExit exitCode s) = None"
  by (simp_all add: handleExit_def cleanup_def Let_def split: option.splits)

lemma run_exit: "run exampleHost exitScenario newClient = handleExit (Some 1) callingClient"
  by (simp only: exitScenario_def run_snoc run_calling step.simps)

lemma timeoutError_example:
  "timeoutError exampleHost = Error (js ''MCP request timeout after 60000ms'')"
  by (simp add: timeoutError_def exampleHost_def numberToString_def decimal.simps js_def)

text \<open>
  C2, on a session whose subprocess exits with code 1 while a \<open>webSearch\<close> call is in
  flight: after the exit event the request is still in the pending map and neither its
  promise nor the call's promise is settled; the call fails only when the request's
  timer fires, with the timeout error.
\<close>

theorem exit_leaves_request_pending:
  "pendingRequests (run exampleHost exitScenario newClient) = [(IdNum 2, \<lparr>promise = 2, timer = 2\<rparr>)]
   \<and> requestPromise (run exampleHost exitScenario newClient) 2 = Unsettled
   \<and> callPromise (run exampleHost exitScenario newClient) 1 = Unsettled
   \<and> \<not> initialized (run exampleHost exitScenario newClient)
   \<and> process (run exampleHost exitScenario newClient) = None
   \<and> callPromise (step exampleHost (RequestTimeout 2) (run exampleHost exitScenario newClient)) 1
       = Rejected (Error (js ''MCP request timeout after 60000ms''))"
proof -
  have "callPromise (requestTimeout exampleHost 2 (handleExit (Some 1) callingClient)) 1
        = Rejected (timeoutError exampleHost)"
    by (simp add: requestTimeout_def settleRequest_def resumeAwaiter_def callTool_finish_def
        toolResultOf_def handleExit_fields callingClient_def Let_def)
  then show ?thesis
    unfolding run_exit
    by (simp add: handleExit_fields callingClient_def timeoutError_example)
qed

lemma run_handshake_error:
  "run exampleHost handshakeErrorScenario newClient
   = handshakeClient\<lparr>pendingRequests := [], timers := {},
       requestPromise := (\<lambda>_. Unsettled)(1 := Resolved errorResponse),
       requestAwaiter := (\<lambda>_. None),
       connectPromise := (\<lambda>_. Unsettled)(1 := Rejected (Error (js ''MCP initialize failed: bad'')))\<rparr>"
proof -
  have "handleData exampleHost (utf8_line initErrorLine) handshakeClient
        = receive exampleHost errorResponse handshakeClient"
    by (rule handleData_one_line [where line = initErrorLine])
      (simp_all add: handshakeClient_def newClient_def decode_error_line initErrorLine_chars
        exampleHost_def exampleParse_def errorResponse_def)
  also have "\<dots> = handshakeClient\<lparr>pendingRequests := [], timers := {},
       requestPromise := (\<lambda>_. Unsettled)(1 := Resolved errorResponse),
       requestAwaiter := (\<lambda>_. None),
       connectPromise := (\<lambda>_. Unsettled)(1 := Rejected (Error (js ''MCP initialize failed: bad'')))\<rparr>"
    by (simp add: handshakeClient_def session_defs newClient_def Let_def errorResponse_def
        fun_upd_idem js_def)
  finally show ?thesis
    by (simp only: handshakeErrorScenario_def run_snoc run_handshake step.simps)
qed

lemma connect_shares:
  "\<not> initialized s \<Longrightarrow> initPromise s = Some k \<Longrightarrow> connect H s = (Sharing k, s)"
  by (simp add: connect_def)

lemma connect_ready: "initialized s \<Longrightarrow> connect H s = (Immediately, s)"
  by (simp add: connect_def)

text \<open>
  C4, on a session whose initialize request is answered with a protocol error: the
  attempt's promise is rejected, but \<open>initPromise\<close> still holds it, so the next
  \<open>connect()\<close> returns the same rejected promise, changes nothing and spawns nothing.
\<close>

theorem handshake_error_keeps_failed_promise:
  "initPromise (run exampleHost handshakeErrorScenario newClient) = Some 1
   \<and> connectPromise (run exampleHost handshakeErrorScenario newClient) 1
       = Rejected (Error (js ''MCP initialize failed: bad''))
   \<and> \<not> initialized (run exampleHost handshakeErrorScenario newClient)
   \<and> spawned (run exampleHost handshakeErrorScenario newClient) = 1
   \<and> connect exampleHost (run exampleHost handshakeErrorScenario newClient)
       = (Sharing 1, run exampleHost handshakeErrorScenario newClient)"
proof -
  let ?s = "run exampleHost handshakeErrorScenario newClient"
  have f: "initPromise ?s = Some 1" "\<not> initialized ?s" "spawned ?s = 1"
    "connectPromise ?s 1 = Rejected (Error (js ''MCP initialize failed: bad''))"
    unfolding run_handshake_error by (simp_all add: handshakeClient_def newClient_def)
  from f(2,1) have "connect exampleHost ?s = (Sharing 1, ?s)"
    by (rule connect_shares)
  with f show ?thesis by simp
qed

lemma run_partial_line:
  "run exampleHost partialLineScenario newClient = handshakeClient\<lparr>buffer := js ''{partial''\<rparr>"
proof -
  have "nl \<notin> set (js ''{partial'')"
    by (simp add: js_def nl_def)
  then have "handleData exampleHost (utf8_encode (js ''{partial'')) handshakeClient
        = handshakeClient\<lparr>buffer := js ''{partial''\<rparr>"
    by (simp add: handleData_def decode_partial handshakeClient_def newClient_def drain_no_newline)
  then show ?thesis
    by (simp only: partialLineScenario_def run_snoc run_handshake step.simps)
qed

text \<open>
  C5 as stated fails on a session that has received a partial line and has a request
  pending: after \<open>disconnect()\<close> the input buffer still holds the partial line, the
  request is still in the pending map and its promise is not settled.
\<close>

theorem disconnect_keeps_buffer_and_pending:
  "buffer (disconnect (run exampleHost partialLineScenario newClient)) = js ''{partial''
   \<and> buffer (disconnect (run exampleHost partialLineScenario newClient)) \<noteq> []
   \<and> pendingRequests (disconnect (run exampleHost partialLineScenario newClient))
       = [(IdNum 1, \<lparr>promise = 1, timer = 1\<rparr>)]
   \<and> requestPromise (disconnect (run exampleHost partialLineScenario newClient)) 1 = Unsettled"
  unfolding run_partial_line
  by (simp add: disconnect_def cleanup_frame handshakeClient_def newClient_def js_def)

text \<open>
  C5 as amended: \<open>disconnect()\<close> is idempotent and does nothing to a session that was
  never connected; it kills the subprocess if the session holds one, releases the
  handle, drops the initialization promise and resets the initialized flag; the input
  buffer and the request counter are left as they are.
\<close>

theorem disconnect_teardown:
  "disconnect (disconnect s) = disconnect s
   \<and> disconnect newClient = newClient
   \<and> process (disconnect s) = None
   \<and> \<not> initialized (disconnect s)
   \<and> initPromise (disconnect s) = None
   \<and> killed (disconnect s) = killed s @ (case process s of Some p \<Rightarrow> [handle p] | None \<Rightarrow> [])
   \<and> buffer (disconnect s) = buffer s
   \<and> requestId (disconnect s) = requestId s"
  by (simp add: disconnect_def cleanup_def newClient_def Let_def split: option.splits)


section \<open>Rejections\<close>

text \<open>What a rejected promise sets off: only promises of calls and of connect attempts change.\<close>

lemma rejected_calls_fold:
  "sameCore s (fold (callTool_request H (Rejected e)) waiting s)
   \<and> initialized (fold (callTool_request H (Rejected e)) waiting s) = initialized s
   \<and> process (fold (callTool_request H (Rejected e)) waiting s) = process s
   \<and> connectPromise (fold (callTool_request H (Rejected e)) waiting s) = connectPromise s
   \<and> (\<forall>c. callPromise (fold (callTool_request H (Rejected e)) waiting s) c =
          (if c \<in> fst ` set waiting then Rejected e else callPromise s c))"
proof (induction waiting arbitrary: s)
  case Nil
  show ?case by (simp add: sameCore_def)
next
  case (Cons w ws)
  obtain c name args where w: "w = (c, name, args)" by (cases w) auto
  let ?s1 = "s\<lparr>callPromise := (callPromise s)(c := Rejected e)\<rparr>"
  have step: "callTool_request H (Rejected e) (c, name, args) s = ?s1"
    by (simp add: callTool_request_def)
  from Cons.IH [of ?s1] show ?case
    by (auto simp: step sameCore_def w)
qed

lemma settleConnect_rejected:
  assumes "connectPromise s k = Unsettled"
  shows "sameCore s (settleConnect H k (Rejected e) s)"
    and "initialized (settleConnect H k (Rejected e) s) = initialized s"
    and "process (settleConnect H k (Rejected e) s) = process s"
    and "connectPromise (settleConnect H k (Rejected e) s) k = Rejected e"
    and "(c, name, args) \<in> set (connectAwaiters s k) \<Longrightarrow>
         callPromise (settleConnect H k (Rejected e) s) c = Rejected e"
proof -
  let ?s1 = "s\<lparr>connectPromise := (connectPromise s)(k := Rejected e),
                 connectAwaiters := (connectAwaiters s)(k := [])\<rparr>"
  have eq: "settleConnect H k (Rejected e) s
            = fold (callTool_request H (Rejected e)) (connectAwaiters s k) ?s1"
    using assms by (simp add: settleConnect_def)
  note f = rejected_calls_fold [of ?s1 H e "connectAwaiters s k"]
  from f show "sameCore s (settleConnect H k (Rejected e) s)"
    by (simp add: eq sameCore_def)
  from f show "initialized (settleConnect H k (Rejected e) s) = initialized s"
    by (simp add: eq)
  from f show "process (settleConnect H k (Rejected e) s) = process s"
    by (simp add: eq)
  from f show "connectPromise (settleConnect H k (Rejected e) s) k = Rejected e"
    by (simp add: eq)
  assume "(c, name, args) \<in> set (connectAwaiters s k)"
  then have "c \<in> fst ` set (connectAwaiters s k)" by force
  with f show "callPromise (settleConnect H k (Rejected e) s) c = Rejected e"
    by (simp add: eq)
qed

lemma settleConnect_rejected_quiet:
  "sameCore s (settleConnect H k (Rejected e) s)
   \<and> initialized (settleConnect H k (Rejected e) s) = initialized s
   \<and> process (settleConnect H k (Rejected e) s) = process s"
proof (cases "connectPromise s k = Unsettled")
  case True
  then show ?thesis by (simp add: settleConnect_rejected)
next
  case False
  then show ?thesis by (simp add: settleConnect_def sameCore_def)
qed

lemma resumeAwaiter_rejected_quiet:
  assumes "requestPromise s n = Rejected e"
  shows "sameCore s (resumeAwaiter H n s)
         \<and> initialized (resumeAwaiter H n s) = initialized s
         \<and> process (resumeAwaiter H n s) = process s"
proof (cases "requestAwaiter s n")
  case None
  then show ?thesis by (simp add: resumeAwaiter_def sameCore_def)
next
  case (Some a)
  let ?s1 = "s\<lparr>requestAwaiter := (requestAwaiter s)(n := None)\<rparr>"
  show ?thesis
  proof (cases a)
    case (Initialize k)
    from settleConnect_rejected_quiet [of ?s1 H k e] Some Initialize assms show ?thesis
      by (simp add: resumeAwaiter_def initialize_finish_def sameCore_def)
  next
    case (CallTool c)
    with Some show ?thesis
      by (simp add: resumeAwaiter_def callTool_finish_def sameCore_def)
  qed
qed

lemma resumeAll_rejected_quiet:
  assumes "\<forall>n \<in> set ns. requestPromise s n = Rejected e"
  shows "sameCore s (fold (resumeAwaiter H) ns s)
         \<and> initialized (fold (resumeAwaiter H) ns s) = initialized s
         \<and> process (fold (resumeAwaiter H) ns s) = process s"
  using assms
proof (induction ns arbitrary: s)
  case Nil
  show ?case by (simp add: sameCore_def)
next
  case (Cons n ns)
  let ?s1 = "resumeAwaiter H n s"
  from Cons.prems have q: "sameCore s ?s1 \<and> initialized ?s1 = initialized s \<and> process ?s1 = process s"
    by (simp add: resumeAwaiter_rejected_quiet)
  with Cons.prems have "\<forall>m \<in> set ns. requestPromise ?s1 m = Rejected e"
    by (simp add: sameCore_def)
  from Cons.IH [OF this] q show ?case
    by (simp add: sameCore_def)
qed

lemma rejectAll_outcomes:
  "requestPromise (fst (rejectAll err rs s acc)) =
     (\<lambda>n. if n \<in> promise ` set rs \<and> requestPromise s n = Unsettled then Rejected err
          else requestPromise s n)
   \<and> set (snd (rejectAll err rs s acc)) \<subseteq> set acc \<union> promise ` set rs
   \<and> initialized (fst (rejectAll err rs s acc)) = initialized s
   \<and> process (fst (rejectAll err rs s acc)) = process s
   \<and> initPromise (fst (rejectAll err rs s acc)) = initPromise s"
proof (induction rs arbitrary: s acc)
  case Nil
  show ?case by simp
next
  case (Cons r rs)
  let ?s1 = "fst (settleRequest (promise r) (Rejected err) s)"
  let ?acc = "acc @ snd (settleRequest (promise r) (Rejected err) s)"
  have s1: "requestPromise ?s1 =
              (\<lambda>n. if n = promise r \<and> requestPromise s n = Unsettled then Rejected err
                   else requestPromise s n)"
    "initialized ?s1 = initialized s" "process ?s1 = process s" "initPromise ?s1 = initPromise s"
    "set ?acc \<subseteq> set acc \<union> {promise r}"
    by (auto simp: settleRequest_def fun_eq_iff)
  from Cons.IH [of ?s1 ?acc] s1 show ?case
    by (auto simp: fun_eq_iff)
qed

text \<open>
  The error event does what C2 says: every request pending at the event is rejected
  with the error, the pending map is empty, and the session is not ready.
\<close>

lemma handleProcessError_rejects_all:
  assumes wf: "wellFormed s"
  shows "pendingRequests (handleProcessError H err s) = []"
    and "\<not> initialized (handleProcessError H err s)"
    and "process (handleProcessError H err s) = None"
    and "map_of (pendingRequests s) k = Some r \<Longrightarrow>
         requestPromise (handleProcessError H err s) (promise r) = Rejected err"
proof -
  let ?rs = "map snd (pendingRequests s)"
  let ?s1 = "fst (rejectAll err ?rs s [])"
  let ?settled = "snd (rejectAll err ?rs s [])"
  let ?s2 = "cleanup (?s1\<lparr>pendingRequests := []\<rparr>)"
  have eq: "handleProcessError H err s = fold (resumeAwaiter H) ?settled ?s2"
    by (simp add: handleProcessError_def case_prod_unfold)
  note out = rejectAll_outcomes [of err ?rs s "[]"]
  have unsettled: "requestPromise s (promise r') = Unsettled" if "r' \<in> set ?rs" for r'
  proof -
    from that obtain k' where "(k', r') \<in> set (pendingRequests s)" by auto
    with wf have "map_of (pendingRequests s) k' = Some r'"
      by (simp add: wellFormed_def)
    with wf have "pendingOk (requestId s) (requestPromise s) k' r'"
      unfolding wellFormed_def by blast
    then show ?thesis by (auto simp: pendingOk_def)
  qed
  have rej: "requestPromise ?s2 n = Rejected err" if "n \<in> set ?settled" for n
  proof -
    from that out have "n \<in> promise ` set ?rs" by auto
    with unsettled out show ?thesis
      by (auto simp: cleanup_frame)
  qed
  then have "\<forall>n \<in> set ?settled. requestPromise ?s2 n = Rejected err" by blast
  note q = resumeAll_rejected_quiet [OF this, of H]
  from q show "pendingRequests (handleProcessError H err s) = []"
    by (simp add: eq sameCore_def cleanup_frame)
  from q show "\<not> initialized (handleProcessError H err s)"
    by (simp add: eq cleanup_def Let_def split: option.splits)
  from q show "process (handleProcessError H err s) = None"
    by (simp add: eq cleanup_def Let_def split: option.splits)
  assume "map_of (pendingRequests s) k = Some r"
  then have "r \<in> set ?rs"
    by (force dest: map_of_SomeD)
  with unsettled out have "requestPromise ?s2 (promise r) = Rejected err"
    by (auto simp: cleanup_frame)
  with q show "requestPromise (handleProcessError H err s) (promise r) = Rejected err"
    by (simp add: eq sameCore_def)
qed

section \<open>Timeouts, request ids and tool calls\<close>

lemma wellFormed_pending:
  assumes "wellFormed s" and "map_of (pendingRequests s) (IdNum (int n)) = Some r"
  shows "r = \<lparr>promise = n, timer = n\<rparr>" and "0 < n" and "n \<le> requestId s"
    and "requestPromise s n = Unsettled"
proof -
  from assms have "pendingOk (requestId s) (requestPromise s) (IdNum (int n)) r"
    unfolding wellFormed_def by blast
  then show "r = \<lparr>promise = n, timer = n\<rparr>" "0 < n" "n \<le> requestId s"
    "requestPromise s n = Unsettled"
    by (auto simp: pendingOk_def)
qed

lemma run_stable: "stable s (run H es s)"
  using run_preserved [of s H es] by (simp add: preserved_def)

lemma handleMessage_unmatched:
  "id' msg = Some i \<Longrightarrow> map_of (pendingRequests s) i = None \<Longrightarrow> handleMessage msg s = (s, [])"
  by (simp add: handleMessage_def)

lemma handleMessage_no_id: "id' msg = None \<Longrightarrow> handleMessage msg s = (s, [])"
  by (simp add: handleMessage_def)

lemma receive_unmatched:
  "id' msg = Some i \<Longrightarrow> map_of (pendingRequests s) i = None \<Longrightarrow> receive H msg s = s"
  by (simp add: receive_def handleMessage_unmatched)

lemma resumeAwaiter_callTool:
  "requestAwaiter s n = Some (CallTool c) \<Longrightarrow>
   callPromise (resumeAwaiter H n s) c = toolResultOf (requestPromise s n)"
  by (simp add: resumeAwaiter_def callTool_finish_def)

lemma sendRequest_connected:
  assumes "process s = Some p" and "stdin p = Some Writable"
  shows "sendRequest H m q s =
           (Inr (Suc (requestId s)),
            s\<lparr>requestId := Suc (requestId s),
               requestPromise := (requestPromise s)(Suc (requestId s) := Unsettled),
               requestAwaiter := (requestAwaiter s)(Suc (requestId s) := None),
               timers := insert (Suc (requestId s)) (timers s),
               pendingRequests :=
                 AList.update (IdNum (int (Suc (requestId s))))
                   \<lparr>promise = Suc (requestId s), timer = Suc (requestId s)\<rparr> (pendingRequests s),
               stdinLog := stdinLog s @ [(handle p, Request (Suc (requestId s)) m q)]\<rparr>)"
  using assms by (simp add: sendRequest_def Let_def)

text \<open>The state in which the timer of request \<open>n\<close> leaves the session, before the awaiter goes on.\<close>

lemma requestTimeout_unfold:
  assumes "n \<in> timers s" and "requestPromise s n = Unsettled"
  shows "requestTimeout H n s =
           resumeAwaiter H n
             (s\<lparr>timers := timers s - {n},
                pendingRequests := AList.delete (IdNum (int n)) (pendingRequests s),
                requestPromise := (requestPromise s)(n := Rejected (timeoutError H))\<rparr>)"
  using assms by (simp add: requestTimeout_def settleRequest_def Let_def)

text \<open>
  C3: take any run of a session and a request \<open>n\<close> that is still pending in it, with
  its timer armed (the state \<open>sendRequest\<close> leaves on a connected session, see
  \<open>sendRequest_connected\<close>, until a response with id \<open>n\<close> arrives). When the timer fires,
  the record is removed and the request's promise is rejected with the timeout error;
  the caller awaiting it, a \<open>callTool\<close> or the handshake of a connect attempt, fails
  with that error. Whatever happens later, a response with id \<open>n\<close> finds no record
  and changes nothing, and the promise keeps its outcome.
\<close>

theorem request_timeout_then_late_response:
  assumes pending: "map_of (pendingRequests (run H es newClient)) (IdNum (int n)) = Some r"
    and armed: "n \<in> timers (run H es newClient)"
  shows "map_of (pendingRequests (requestTimeout H n (run H es newClient))) (IdNum (int n)) = None
       \<and> requestPromise (requestTimeout H n (run H es newClient)) n = Rejected (timeoutError H)
       \<and> (requestAwaiter (run H es newClient) n = Some (CallTool c) \<longrightarrow>
            callPromise (requestTimeout H n (run H es newClient)) c = Rejected (timeoutError H))
       \<and> (requestAwaiter (run H es newClient) n = Some (Initialize k)
            \<and> connectPromise (run H es newClient) k = Unsettled \<longrightarrow>
            connectPromise (requestTimeout H n (run H es newClient)) k = Rejected (timeoutError H))
       \<and> (\<forall>later msg. id' msg = Some (IdNum (int n)) \<longrightarrow>
            handleMessage msg (run H later (requestTimeout H n (run H es newClient)))
              = (run H later (requestTimeout H n (run H es newClient)), [])
            \<and> receive H msg (run H later (requestTimeout H n (run H es newClient)))
              = run H later (requestTimeout H n (run H es newClient))
            \<and> requestPromise (run H later (requestTimeout H n (run H es newClient))) n
              = Rejected (timeoutError H))"
proof -
  let ?s = "run H es newClient"
  let ?s1 = "?s\<lparr>timers := timers ?s - {n},
                 pendingRequests := AList.delete (IdNum (int n)) (pendingRequests ?s),
                 requestPromise := (requestPromise ?s)(n := Rejected (timeoutError H))\<rparr>"
  let ?s2 = "requestTimeout H n ?s"
  have wf: "wellFormed ?s" by (rule run_wellFormed)
  from wellFormed_pending [OF wf pending]
  have n: "n \<le> requestId ?s" and un: "requestPromise ?s n = Unsettled" by simp_all
  have s2: "?s2 = resumeAwaiter H n ?s1"
    using armed un by (rule requestTimeout_unfold)
  have st: "stable ?s1 ?s2"
    unfolding s2 using resumeAwaiter_preserved [of ?s1 H n] by (simp add: preserved_def)
  have n1: "n \<le> requestId ?s1" using n by simp
  have a: "map_of (pendingRequests ?s2) (IdNum (int n)) = None"
    using st n1 by (simp add: stable_def delete_conv')
  have b: "requestPromise ?s2 n = Rejected (timeoutError H)"
    using st n1 by (simp add: stable_def)
  have n2: "n \<le> requestId ?s2"
    using st n1 by (simp add: stable_def)
  have c: "callPromise ?s2 c = Rejected (timeoutError H)"
    if "requestAwaiter ?s n = Some (CallTool c)"
    unfolding s2 using that by (simp add: resumeAwaiter_callTool toolResultOf_def)
  have c': "connectPromise ?s2 k = Rejected (timeoutError H)"
    if "requestAwaiter ?s n = Some (Initialize k) \<and> connectPromise ?s k = Unsettled"
    unfolding s2 using that
    by (simp add: resumeAwaiter_def initialize_finish_def settleConnect_rejected(4))
  have d: "handleMessage msg (run H later ?s2) = (run H later ?s2, [])
           \<and> receive H msg (run H later ?s2) = run H later ?s2
           \<and> requestPromise (run H later ?s2) n = Rejected (timeoutError H)"
    if "id' msg = Some (IdNum (int n))" for later msg
  proof -
    have "stable ?s2 (run H later ?s2)" by (rule run_stable)
    with a b n2 have "map_of (pendingRequests (run H later ?s2)) (IdNum (int n)) = None"
      and "requestPromise (run H later ?s2) n = Rejected (timeoutError H)"
      by (simp_all add: stable_def)
    with that show ?thesis
      by (simp add: handleMessage_unmatched receive_unmatched)
  qed
  from a b c c' d show ?thesis by blast
qed


lemma sendRequest_next_id:
  assumes "sendRequest H m q s = (Inr n, s')"
  shows "n = Suc (requestId s)" and "requestId s' = n"
  using assms
  by (auto simp: sendRequest_def Let_def split: option.splits stdin_stream.splits)

lemma handleMessage_matched:
  assumes "wellFormed s" and "id' msg = Some i" and "map_of (pendingRequests s) i = Some r"
  shows "\<exists>n. i = IdNum (int n) \<and> r = \<lparr>promise = n, timer = n\<rparr>
           \<and> handleMessage msg s =
               (s\<lparr>pendingRequests := AList.delete i (pendingRequests s),
                  timers := timers s - {n},
                  requestPromise := (requestPromise s)(n := Resolved msg)\<rparr>, [n])"
proof -
  from assms(1,3) have "pendingOk (requestId s) (requestPromise s) i r"
    unfolding wellFormed_def by blast
  then obtain n where n: "i = IdNum (int n)" "r = \<lparr>promise = n, timer = n\<rparr>"
    "requestPromise s n = Unsettled"
    by (auto simp: pendingOk_def)
  with assms(2,3) have "handleMessage msg s =
               (s\<lparr>pendingRequests := AList.delete i (pendingRequests s),
                  timers := timers s - {n},
                  requestPromise := (requestPromise s)(n := Resolved msg)\<rparr>, [n])"
    by (simp add: handleMessage_def settleRequest_def Let_def)
  with n show ?thesis by blast
qed

lemma receive_removes:
  assumes wf: "wellFormed s" and "id' msg = Some i" and "map_of (pendingRequests s) i = Some r"
  shows "map_of (pendingRequests (run H later (receive H msg s))) i = None"
proof -
  from handleMessage_matched [OF assms] obtain n where n: "i = IdNum (int n)"
    and hm: "handleMessage msg s =
               (s\<lparr>pendingRequests := AList.delete i (pendingRequests s),
                  timers := timers s - {n},
                  requestPromise := (requestPromise s)(n := Resolved msg)\<rparr>, [n])"
    by blast
  from wf assms(3) n have le: "n \<le> requestId s"
    using wellFormed_pending(3) by blast
  let ?s1 = "fst (handleMessage msg s)"
  have none: "map_of (pendingRequests ?s1) (IdNum (int n)) = None"
    using hm n by (simp add: delete_conv')
  have le1: "n \<le> requestId ?s1"
    using hm le by simp
  have "stable ?s1 (receive H msg s)"
    using resumeAll_preserved [of ?s1 H "snd (handleMessage msg s)"]
    by (simp add: preserved_def receive_def case_prod_unfold)
  moreover have "stable (receive H msg s) (run H later (receive H msg s))"
    by (rule run_stable)
  ultimately have "stable ?s1 (run H later (receive H msg s))"
    by (rule stable_trans)
  with none le1 show ?thesis
    unfolding n by (simp add: stable_def)
qed

text \<open>
  C6: in every run of a session, the ids of the requests written to the child are
  positive and strictly increasing in the order of writing; each request takes the
  successor of the counter, and the counter never goes down, whatever happens later
  (a disconnect and a reconnect are events like the others); the pending map has at
  most one record per id; a response without id, or with an id that has no record, is
  ignored; a response whose id has a record resolves the promise of exactly that
  record and removes it, after which the id stays without a record for good.
\<close>

theorem request_ids_increase_and_route_by_id:
  "sorted_wrt (<) (requestIds (stdinLog (run H es newClient)))
   \<and> (\<forall>i \<in> set (requestIds (stdinLog (run H es newClient))).
         0 < i \<and> i \<le> requestId (run H es newClient))
   \<and> (\<forall>t m q n t'. sendRequest H m q t = (Inr n, t') \<longrightarrow>
         n = Suc (requestId t) \<and> requestId t' = n)
   \<and> requestId (run H es newClient) \<le> requestId (run H later (run H es newClient))
   \<and> distinct (map fst (pendingRequests (run H es newClient)))
   \<and> (id' msg = None \<longrightarrow> handleMessage msg (run H es newClient) = (run H es newClient, []))
   \<and> (\<forall>i. id' msg = Some i \<and> map_of (pendingRequests (run H es newClient)) i = None \<longrightarrow>
         handleMessage msg (run H es newClient) = (run H es newClient, []))
   \<and> (\<forall>i r. id' msg = Some i \<and> map_of (pendingRequests (run H es newClient)) i = Some r \<longrightarrow>
         (\<exists>n. i = IdNum (int n) \<and> r = \<lparr>promise = n, timer = n\<rparr>
            \<and> handleMessage msg (run H es newClient) =
                ((run H es newClient)
                   \<lparr>pendingRequests := AList.delete i (pendingRequests (run H es newClient)),
                    timers := timers (run H es newClient) - {n},
                    requestPromise := (requestPromise (run H es newClient))(n := Resolved msg)\<rparr>,
                 [n]))
         \<and> map_of (pendingRequests (run H later (receive H msg (run H es newClient)))) i = None)"
proof -
  let ?s = "run H es newClient"
  have wf: "wellFormed ?s" by (rule run_wellFormed)
  then have a: "sorted_wrt (<) (requestIds (stdinLog ?s))"
    and b: "\<forall>i \<in> set (requestIds (stdinLog ?s)). 0 < i \<and> i \<le> requestId ?s"
    and d: "distinct (map fst (pendingRequests ?s))"
    by (simp_all add: wellFormed_def logOk_def)
  have c: "\<forall>t m q n t'. sendRequest H m q t = (Inr n, t') \<longrightarrow>
             n = Suc (requestId t) \<and> requestId t' = n"
    using sendRequest_next_id by blast
  have e: "requestId ?s \<le> requestId (run H later ?s)"
    using run_stable [of ?s H later] by (simp add: stable_def)
  have f: "id' msg = None \<longrightarrow> handleMessage msg ?s = (?s, [])"
    by (simp add: handleMessage_no_id)
  have g: "\<forall>i. id' msg = Some i \<and> map_of (pendingRequests ?s) i = None \<longrightarrow>
             handleMessage msg ?s = (?s, [])"
    by (simp add: handleMessage_unmatched)
  have h: "(\<exists>n. i = IdNum (int n) \<and> r = \<lparr>promise = n, timer = n\<rparr>
              \<and> handleMessage msg ?s =
                  (?s\<lparr>pendingRequests := AList.delete i (pendingRequests ?s),
                      timers := timers ?s - {n},
                      requestPromise := (requestPromise ?s)(n := Resolved msg)\<rparr>, [n]))
           \<and> map_of (pendingRequests (run H later (receive H msg ?s))) i = None"
    if "id' msg = Some i \<and> map_of (pendingRequests ?s) i = Some r" for i r
    using that handleMessage_matched [OF wf, of msg i r] receive_removes [OF wf, of msg i r H later]
    by blast
  from a b c d e f g h show ?thesis by blast
qed

lemma callingClient_fields:
  "requestId callingClient = 2"
  "pendingRequests callingClient = [(IdNum 2, \<lparr>promise = 2, timer = 2\<rparr>)]"
  "timers callingClient = {2}"
  "requestAwaiter callingClient 2 = Some (CallTool 1)"
  "requestPromise callingClient 2 = Unsettled"
  "requestIds (stdinLog callingClient) = [1, 2]"
  by (simp_all add: callingClient_def readyClient_def newClient_def)

theorem request_ids_increase_and_route_by_id_witness:
  "requestIds (stdinLog (run exampleHost callingScenario newClient)) = [1, 2]
   \<and> sorted_wrt (<) (requestIds (stdinLog (run exampleHost callingScenario newClient)))
   \<and> id' toolResponse = Some (IdNum 2)
   \<and> map_of (pendingRequests (run exampleHost callingScenario newClient)) (IdNum 2)
       = Some \<lparr>promise = 2, timer = 2\<rparr>
   \<and> snd (handleMessage toolResponse (run exampleHost callingScenario newClient)) = [2]
   \<and> map_of (pendingRequests (run exampleHost [Disconnect, Connect]
         (receive exampleHost toolResponse (run exampleHost callingScenario newClient)))) (IdNum 2)
       = None"
  using request_ids_increase_and_route_by_id
    [of exampleHost callingScenario "[Disconnect, Connect]" toolResponse]
  unfolding run_calling
  by (auto simp: callingClient_fields toolResponse_def)


lemma callTool_ready:
  assumes "initialized s" and "process s = Some p" and "stdin p = Some Writable"
  shows "callTool H name args s =
           (Suc (calls s),
            s\<lparr>calls := Suc (calls s),
               callPromise := (callPromise s)(Suc (calls s) := Unsettled),
               requestId := Suc (requestId s),
               requestPromise := (requestPromise s)(Suc (requestId s) := Unsettled),
               timers := insert (Suc (requestId s)) (timers s),
               pendingRequests :=
                 AList.update (IdNum (int (Suc (requestId s))))
                   \<lparr>promise = Suc (requestId s), timer = Suc (requestId s)\<rparr> (pendingRequests s),
               stdinLog := stdinLog s
                 @ [(handle p, Request (Suc (requestId s)) (js ''tools/call'')
                      (JObj [(js ''name'', JStr name), (js ''arguments'', args)]))],
               requestAwaiter := (requestAwaiter s)(Suc (requestId s) := Some (CallTool (Suc (calls s))))\<rparr>)"
  using assms
  by (simp add: callTool_def connect_def callTool_request_def Let_def toolCallParams_def
      sendRequest_connected [where p = p])

lemma callTool_initialized_no_spawn:
  assumes "initialized s"
  shows "spawned (snd (callTool H name args s)) = spawned s"
  using assms
  by (auto simp: callTool_def connect_def callTool_request_def Let_def sendRequest_def
      callTool_finish_def split: option.splits stdin_stream.splits)

lemma callTool_unconnected:
  assumes "\<not> initialized s" and "initPromise s = None"
  shows "callTool H name args s =
           (Suc (calls s),
            s\<lparr>calls := Suc (calls s),
               callPromise := (callPromise s)(Suc (calls s) := Unsettled),
               process := Some (spawnProcess H (Suc (spawned s))),
               spawned := Suc (spawned s),
               connectPromise := (connectPromise s)(Suc (spawned s) := Unsettled),
               startupWaiting := insert (Suc (spawned s)) (startupWaiting s),
               initPromise := Some (Suc (spawned s)),
               connectAwaiters := (connectAwaiters s)(Suc (spawned s) := [(Suc (calls s), name, args)])\<rparr>)"
  using assms by (simp add: callTool_def connect_def doConnect_def Let_def)

lemma settleConnect_resolved_one:
  assumes "connectPromise s k = Unsettled" and "connectAwaiters s k = [(c, name, args)]"
    and "process s = Some p" and "stdin p = Some Writable"
  shows "stdinLog (settleConnect H k (Resolved ()) s) =
           stdinLog s @ [(handle p, Request (Suc (requestId s)) (js ''tools/call'')
                           (JObj [(js ''name'', JStr name), (js ''arguments'', args)]))]
         \<and> requestAwaiter (settleConnect H k (Resolved ()) s) (Suc (requestId s)) = Some (CallTool c)"
  using assms
  by (simp add: settleConnect_def callTool_request_def toolCallParams_def
      sendRequest_connected [where p = p])

lemma receive_callTool:
  assumes "requestAwaiter s n = Some (CallTool c)"
    and "map_of (pendingRequests s) (IdNum (int n)) = Some \<lparr>promise = n, timer = n\<rparr>"
    and "requestPromise s n = Unsettled"
    and "id' msg = Some (IdNum (int n))"
  shows "callPromise (receive H msg s) c = toolResultOf (Resolved msg)"
  using assms
  by (simp add: receive_def handleMessage_def settleRequest_def Let_def resumeAwaiter_def
      callTool_finish_def)

text \<open>
  C7: on an initialized session \<open>callTool\<close> spawns nothing and, the child's input being
  writable, writes one \<open>tools/call\<close> request with the parameters \<open>{name, arguments}\<close>
  under the next id and awaits it. On a session that is neither initialized nor
  connecting it starts a connect attempt and writes nothing; on a connecting session it
  joins the attempt in flight. When the attempt fails, every call awaiting it fails with
  the attempt's error and nothing is written; when it succeeds the request is written
  then. A response with an error field rejects the call with
  \<open>Tool call failed: <message>\<close>; any other response resolves it with the result field,
  or with \<open>{content: []}\<close> when the result is absent or null.
\<close>

theorem callTool_contract:
  "(initialized s \<longrightarrow> spawned (snd (callTool H name args s)) = spawned s)
   \<and> (initialized s \<and> process s = Some p \<and> stdin p = Some Writable \<longrightarrow>
        fst (callTool H name args s) = Suc (calls s)
        \<and> stdinLog (snd (callTool H name args s)) =
            stdinLog s @ [(handle p, Request (Suc (requestId s)) (js ''tools/call'')
                            (JObj [(js ''name'', JStr name), (js ''arguments'', args)]))]
        \<and> requestAwaiter (snd (callTool H name args s)) (Suc (requestId s))
            = Some (CallTool (Suc (calls s)))
        \<and> callPromise (snd (callTool H name args s)) (Suc (calls s)) = Unsettled)
   \<and> (\<not> initialized s \<and> initPromise s = None \<longrightarrow>
        fst (callTool H name args s) = Suc (calls s)
        \<and> stdinLog (snd (callTool H name args s)) = stdinLog s
        \<and> spawned (snd (callTool H name args s)) = Suc (spawned s)
        \<and> connectAwaiters (snd (callTool H name args s)) (Suc (spawned s))
            = [(Suc (calls s), name, args)]
        \<and> callPromise (snd (callTool H name args s)) (Suc (calls s)) = Unsettled)
   \<and> (\<not> initialized s \<and> initPromise s = Some k \<and> connectPromise s k = Unsettled \<longrightarrow>
        stdinLog (snd (callTool H name args s)) = stdinLog s
        \<and> spawned (snd (callTool H name args s)) = spawned s
        \<and> connectAwaiters (snd (callTool H name args s)) k
            = connectAwaiters s k @ [(Suc (calls s), name, args)])
   \<and> (connectPromise s k = Unsettled \<and> (c, name, args) \<in> set (connectAwaiters s k) \<longrightarrow>
        callPromise (settleConnect H k (Rejected e) s) c = Rejected e
        \<and> stdinLog (settleConnect H k (Rejected e) s) = stdinLog s)
   \<and> (connectPromise s k = Unsettled \<and> connectAwaiters s k = [(c, name, args)]
        \<and> process s = Some p \<and> stdin p = Some Writable \<longrightarrow>
        stdinLog (settleConnect H k (Resolved ()) s) =
          stdinLog s @ [(handle p, Request (Suc (requestId s)) (js ''tools/call'')
                          (JObj [(js ''name'', JStr name), (js ''arguments'', args)]))])
   \<and> (requestAwaiter s n = Some (CallTool c)
        \<and> map_of (pendingRequests s) (IdNum (int n)) = Some \<lparr>promise = n, timer = n\<rparr>
        \<and> requestPromise s n = Unsettled \<and> id' msg = Some (IdNum (int n)) \<longrightarrow>
        callPromise (receive H msg s) c =
          (case error msg of
             Some err \<Rightarrow> Rejected (Error (js ''Tool call failed: '' @ message err))
           | None \<Rightarrow>
               Resolved (case result msg of
                           None \<Rightarrow> JObj [(js ''content'', JArr [])]
                         | Some JNull \<Rightarrow> JObj [(js ''content'', JArr [])]
                         | Some v \<Rightarrow> v)))"
proof -
  have a: "initialized s \<longrightarrow> spawned (snd (callTool H name args s)) = spawned s"
    by (simp add: callTool_initialized_no_spawn)
  have b: "fst (callTool H name args s) = Suc (calls s)
        \<and> stdinLog (snd (callTool H name args s)) =
            stdinLog s @ [(handle p, Request (Suc (requestId s)) (js ''tools/call'')
                            (JObj [(js ''name'', JStr name), (js ''arguments'', args)]))]
        \<and> requestAwaiter (snd (callTool H name args s)) (Suc (requestId s))
            = Some (CallTool (Suc (calls s)))
        \<and> callPromise (snd (callTool H name args s)) (Suc (calls s)) = Unsettled"
    if "initialized s \<and> process s = Some p \<and> stdin p = Some Writable"
    using that by (simp add: callTool_ready [where p = p])
  have c: "fst (callTool H name args s) = Suc (calls s)
        \<and> stdinLog (snd (callTool H name args s)) = stdinLog s
        \<and> spawned (snd (callTool H name args s)) = Suc (spawned s)
        \<and> connectAwaiters (snd (callTool H name args s)) (Suc (spawned s))
            = [(Suc (calls s), name, args)]
        \<and> callPromise (snd (callTool H name args s)) (Suc (calls s)) = Unsettled"
    if "\<not> initialized s \<and> initPromise s = None"
    using that by (simp add: callTool_unconnected)
  have c': "stdinLog (snd (callTool H name args s)) = stdinLog s
        \<and> spawned (snd (callTool H name args s)) = spawned s
        \<and> connectAwaiters (snd (callTool H name args s)) k
            = connectAwaiters s k @ [(Suc (calls s), name, args)]"
    if "\<not> initialized s \<and> initPromise s = Some k \<and> connectPromise s k = Unsettled"
    using that by (simp add: callTool_def connect_def Let_def)
  have d: "callPromise (settleConnect H k (Rejected e) s) c = Rejected e
        \<and> stdinLog (settleConnect H k (Rejected e) s) = stdinLog s"
    if "connectPromise s k = Unsettled \<and> (c, name, args) \<in> set (connectAwaiters s k)"
    using that settleConnect_rejected(1) [of s k H e]
      settleConnect_rejected(5) [of s k c name args H e]
    by (simp add: sameCore_def)
  have e: "stdinLog (settleConnect H k (Resolved ()) s) =
          stdinLog s @ [(handle p, Request (Suc (requestId s)) (js ''tools/call'')
                          (JObj [(js ''name'', JStr name), (js ''arguments'', args)]))]"
    if "connectPromise s k = Unsettled \<and> connectAwaiters s k = [(c, name, args)]
        \<and> process s = Some p \<and> stdin p = Some Writable"
    using that settleConnect_resolved_one [of s k c name args p H] by simp
  have f: "callPromise (receive H msg s) c =
          (case error msg of
             Some err \<Rightarrow> Rejected (Error (js ''Tool call failed: '' @ message err))
           | None \<Rightarrow>
               Resolved (case result msg of
                           None \<Rightarrow> JObj [(js ''content'', JArr [])]
                         | Some JNull \<Rightarrow> JObj [(js ''content'', JArr [])]
                         | Some v \<Rightarrow> v))"
    if "requestAwaiter s n = Some (CallTool c)
        \<and> map_of (pendingRequests s) (IdNum (int n)) = Some \<lparr>promise = n, timer = n\<rparr>
        \<and> requestPromise s n = Unsettled \<and> id' msg = Some (IdNum (int n))"
    using that receive_callTool [of s n c msg H]
    by (simp add: toolResultOf_def emptyContent_def split: option.splits json.splits)
  from a b c c' d e f show ?thesis by blast
qed

lemma readyClient_fields:
  "initialized readyClient"
  "process readyClient = Some \<lparr>handle = 1, pid = Some 4001, stdin = Some Writable\<rparr>"
  "requestId readyClient = 1" "calls readyClient = 0" "spawned readyClient = 1"
  by (simp_all add: readyClient_def newClient_def)

theorem callTool_contract_witness:
  "initialized readyClient
   \<and> spawned (snd (callTool exampleHost (js ''web_search'') searchArgs readyClient)) = 1
   \<and> stdinLog (snd (callTool exampleHost (js ''web_search'') searchArgs readyClient)) =
        stdinLog readyClient
        @ [(1, Request 2 (js ''tools/call'')
                 (JObj [(js ''name'', JStr (js ''web_search'')), (js ''arguments'', searchArgs)]))]
   \<and> \<not> initialized newClient \<and> initPromise newClient = None
   \<and> stdinLog (snd (callTool exampleHost (js ''web_search'') searchArgs newClient)) = []
   \<and> spawned (snd (callTool exampleHost (js ''web_search'') searchArgs newClient)) = 1
   \<and> callPromise (receive exampleHost toolResponse callingClient) 1
       = Resolved (JObj [(js ''content'', JArr [])])
   \<and> callPromise (receive exampleHost toolErrorResponse callingClient) 1
       = Rejected (Error (js ''Tool call failed: boom''))
   \<and> \<not> initialized handshakeClient \<and> initPromise handshakeClient = Some 1
   \<and> connectAwaiters (snd (callTool exampleHost (js ''web_search'') searchArgs handshakeClient)) 1
       = [(1, js ''web_search'', searchArgs)]
   \<and> callPromise
        (settleConnect exampleHost 1 (Rejected (Error (js ''MCP process startup timeout'')))
          (snd (callTool exampleHost (js ''web_search'') searchArgs newClient))) 1
       = Rejected (Error (js ''MCP process startup timeout''))"
  using callTool_contract
      [where s = readyClient and H = exampleHost and name = "js ''web_search''"
         and args = searchArgs
         and p = "\<lparr>handle = 1, pid = Some 4001, stdin = Some Writable\<rparr>"]
    callTool_contract
      [where s = newClient and H = exampleHost and name = "js ''web_search''"
         and args = searchArgs]
    callTool_contract
      [where s = callingClient and H = exampleHost and c = 1 and n = 2 and msg = toolResponse]
    callTool_contract
      [where s = callingClient and H = exampleHost and c = 1 and n = 2
         and msg = toolErrorResponse]
    callTool_contract
      [where s = handshakeClient and H = exampleHost and name = "js ''web_search''"
         and args = searchArgs and k = 1]
    callTool_contract
      [where s = "snd (callTool exampleHost (js ''web_search'') searchArgs newClient)"
         and H = exampleHost and name = "js ''web_search''" and args = searchArgs
         and k = 1 and c = 1 and e = "Error (js ''MCP process startup timeout'')"]
  by (simp add: readyClient_fields callingClient_fields toolResponse_def toolErrorResponse_def
      callTool_unconnected handshakeClient_def newClient_def js_def)


lemma run_Nil: "run H [] s = s"
  by (simp add: run_def)

theorem request_timeout_then_late_response_witness:
  "map_of (pendingRequests (run exampleHost callingScenario newClient)) (IdNum 2)
     = Some \<lparr>promise = 2, timer = 2\<rparr>
   \<and> 2 \<in> timers (run exampleHost callingScenario newClient)
   \<and> requestAwaiter (run exampleHost callingScenario newClient) 2 = Some (CallTool 1)
   \<and> map_of (pendingRequests (requestTimeout exampleHost 2 (run exampleHost callingScenario newClient)))
        (IdNum 2) = None
   \<and> requestPromise (requestTimeout exampleHost 2 (run exampleHost callingScenario newClient)) 2
       = Rejected (Error (js ''MCP request timeout after 60000ms''))
   \<and> callPromise (requestTimeout exampleHost 2 (run exampleHost callingScenario newClient)) 1
       = Rejected (Error (js ''MCP request timeout after 60000ms''))
   \<and> receive exampleHost toolResponse
        (requestTimeout exampleHost 2 (run exampleHost callingScenario newClient))
       = requestTimeout exampleHost 2 (run exampleHost callingScenario newClient)
   \<and> requestAwaiter (run exampleHost handshakeScenario newClient) 1 = Some (Initialize 1)
   \<and> connectPromise (requestTimeout exampleHost 1 (run exampleHost handshakeScenario newClient)) 1
       = Rejected (Error (js ''MCP request timeout after 60000ms''))"
proof -
  have p': "map_of (pendingRequests (run exampleHost handshakeScenario newClient)) (IdNum (int 1))
           = Some \<lparr>promise = 1, timer = 1\<rparr>"
    and t': "1 \<in> timers (run exampleHost handshakeScenario newClient)"
    and a': "requestAwaiter (run exampleHost handshakeScenario newClient) 1 = Some (Initialize 1)"
    and u': "connectPromise (run exampleHost handshakeScenario newClient) 1 = Unsettled"
    unfolding run_handshake by (simp_all add: handshakeClient_def newClient_def)
  from request_timeout_then_late_response [OF p' t', of _ 1] a' u'
  have h: "connectPromise (requestTimeout exampleHost 1 (run exampleHost handshakeScenario newClient)) 1
           = Rejected (Error (js ''MCP request timeout after 60000ms''))"
    by (simp add: timeoutError_example)
  have p: "map_of (pendingRequests (run exampleHost callingScenario newClient)) (IdNum (int 2))
           = Some \<lparr>promise = 2, timer = 2\<rparr>"
    and t: "2 \<in> timers (run exampleHost callingScenario newClient)"
    and a: "requestAwaiter (run exampleHost callingScenario newClient) 2 = Some (CallTool 1)"
    unfolding run_calling by (simp_all add: callingClient_fields)
  have i: "id' toolResponse = Some (IdNum (int 2))"
    by (simp add: toolResponse_def)
  from request_timeout_then_late_response [OF p t, of 1] a i p t a' h
  show ?thesis
    by (auto simp: timeoutError_example dest: spec [where x = "[]"] simp: run_Nil)
qed

end
